theory Spec2Isabelle
  imports Main "HOL-Library.Word"
begin

section \<open>The two libraries the adapter sits between\<close>

text \<open>
  The package gorm0log implements gorm's logger contract on top of zerolog. Both
  libraries are outside the package; this section fixes the part of their behaviour that
  the package relies on. Names carry the Go package as a prefix (\<open>logger_Silent\<close> is
  \<^verbatim>\<open>logger.Silent\<close>, \<open>zerolog_TraceLevel\<close> is \<^verbatim>\<open>zerolog.TraceLevel\<close>).
\<close>

subsection \<open>gorm: the verbosity enumeration\<close>

text \<open>
  \<^verbatim>\<open>type LogLevel int\<close> with \<^verbatim>\<open>Silent = iota + 1\<close>, then Error, Warn, Info.
  The adapter only compares verbosity values, so they are read as integers; every value
  of Go's \<^verbatim>\<open>int\<close> is one of them.
\<close>

type_synonym LogLevel = int

definition logger_Silent :: LogLevel where "logger_Silent = 1"
definition logger_Error :: LogLevel where "logger_Error = 2"
definition logger_Warn :: LogLevel where "logger_Warn = 3"
definition logger_Info :: LogLevel where "logger_Info = 4"

subsection \<open>zerolog: levels, logger handles, events\<close>

text \<open>
  \<^verbatim>\<open>type Level int8\<close>: Debug is 0, Info 1, Warn 2, Error 3, Fatal 4, Panic 5,
  NoLevel 6, Disabled 7 and Trace -1. The order of the levels is that of these numbers.
\<close>

datatype Level =
    zerolog_DebugLevel
  | zerolog_InfoLevel
  | zerolog_WarnLevel
  | zerolog_ErrorLevel
  | zerolog_FatalLevel
  | zerolog_PanicLevel
  | zerolog_NoLevel
  | zerolog_Disabled
  | zerolog_TraceLevel

fun level_num :: "Level \<Rightarrow> int" where
  "level_num zerolog_DebugLevel = 0"
| "level_num zerolog_InfoLevel = 1"
| "level_num zerolog_WarnLevel = 2"
| "level_num zerolog_ErrorLevel = 3"
| "level_num zerolog_FatalLevel = 4"
| "level_num zerolog_PanicLevel = 5"
| "level_num zerolog_NoLevel = 6"
| "level_num zerolog_Disabled = 7"
| "level_num zerolog_TraceLevel = - 1"

type_synonym int64 = "64 word"
type_synonym Duration = int64

text \<open>
  Go's \<^verbatim>\<open>error\<close> values: the two sentinels of gorm, any other error made by
  \<^verbatim>\<open>errors.New\<close>, and an error wrapping another one (\<^verbatim>\<open>fmt.Errorf\<close> with \<^verbatim>\<open>%w\<close>).
  A nil error is \<open>None\<close> of \<open>error option\<close>.
\<close>

datatype error =
    gorm_ErrRecordNotFound
  | gorm_ErrDuplicatedKey
  | errors_New string
  | fmt_Errorf string error

text \<open>\<^verbatim>\<open>errors.Is\<close>: compare, then unwrap and compare again.\<close>

fun errors_Is :: "error \<Rightarrow> error \<Rightarrow> bool" where
  "errors_Is (fmt_Errorf m e) target = (fmt_Errorf m e = target \<or> errors_Is e target)"
| "errors_Is e target = (e = target)"

datatype fieldval =
    StrField string
  | Int64Field int64
  | DurField Duration
  | ErrField error

text \<open>
  A hook of a logger (\<^verbatim>\<open>zerolog.Hook\<close>). \<^verbatim>\<open>Run(e, level, message)\<close> is called by
  \<^verbatim>\<open>Msg\<close> before the event is written; it is given the event's level and the message
  and may attach fields to the event and may discard it. A hook is the function from
  the level and the message to whether it discards the event, and to the fields it
  attaches. In one call of \<open>Trace\<close> no two events are written with the same message, so
  a hook with a state of its own is covered too.
\<close>

type_synonym Hook = "Level \<Rightarrow> string \<Rightarrow> bool \<times> (string \<times> fieldval) list"

text \<open>
  A logger handle: whether it has a writer (the zero value \<^verbatim>\<open>zerolog.Logger{}\<close> has
  none), its threshold and its hooks (\<^verbatim>\<open>l.Hook(h)\<close> appends one). Context fields and
  samplers are absent and the global level is at its default, trace, so that
  \<^verbatim>\<open>should\<close> is the comparison below.
\<close>

record zerolog_Logger =
  lg_w :: bool
  lg_level :: Level
  lg_hooks :: "Hook list"

text \<open>
  An event under construction: its level, the fields attached so far, in the order of
  attachment, and the hooks it got from its logger (the field \<^verbatim>\<open>ch\<close>). A
  \<^verbatim>\<open>*zerolog.Event\<close> is an \<open>Event option\<close>; the nil pointer, which the logger returns
  for a level below its threshold, is \<open>None\<close>.
\<close>

record Event =
  ev_level :: Level
  ev_fields :: "(string \<times> fieldval) list"
  ev_ch :: "Hook list"

text \<open>A line written to the log.\<close>

record Entry =
  en_level :: Level
  en_fields :: "(string \<times> fieldval) list"
  en_message :: string

definition should :: "zerolog_Logger \<Rightarrow> Level \<Rightarrow> bool" where
  "should l lvl = (if \<not> lg_w l then False
                   else if level_num lvl < level_num (lg_level l) then False
                   else True)"

definition newEvent :: "zerolog_Logger \<Rightarrow> Level \<Rightarrow> Event option" where
  "newEvent l lvl =
     (if \<not> should l lvl then None else Some \<lparr>ev_level = lvl, ev_fields = [], ev_ch = lg_hooks l\<rparr>)"

definition zerolog_Logger_Level :: "zerolog_Logger \<Rightarrow> Level \<Rightarrow> zerolog_Logger" where
  "zerolog_Logger_Level l lvl = l\<lparr>lg_level := lvl\<rparr>"

definition zerolog_Logger_Hook :: "zerolog_Logger \<Rightarrow> Hook list \<Rightarrow> zerolog_Logger" where
  "zerolog_Logger_Hook l hooks = l\<lparr>lg_hooks := lg_hooks l @ hooks\<rparr>"

definition zerolog_Logger_Trace :: "zerolog_Logger \<Rightarrow> Event option" where
  "zerolog_Logger_Trace l = newEvent l zerolog_TraceLevel"

definition zerolog_Logger_Debug :: "zerolog_Logger \<Rightarrow> Event option" where
  "zerolog_Logger_Debug l = newEvent l zerolog_DebugLevel"

definition zerolog_Logger_Info :: "zerolog_Logger \<Rightarrow> Event option" where
  "zerolog_Logger_Info l = newEvent l zerolog_InfoLevel"

definition zerolog_Logger_Warn :: "zerolog_Logger \<Rightarrow> Event option" where
  "zerolog_Logger_Warn l = newEvent l zerolog_WarnLevel"

definition zerolog_Logger_Error :: "zerolog_Logger \<Rightarrow> Event option" where
  "zerolog_Logger_Error l = newEvent l zerolog_ErrorLevel"

text \<open>Field attachment on an event that exists (inside a \<^verbatim>\<open>Func\<close> callback).\<close>

definition Str :: "string \<Rightarrow> string \<Rightarrow> Event \<Rightarrow> Event" where
  "Str k v ev = ev\<lparr>ev_fields := ev_fields ev @ [(k, StrField v)]\<rparr>"

definition Int64 :: "string \<Rightarrow> int64 \<Rightarrow> Event \<Rightarrow> Event" where
  "Int64 k v ev = ev\<lparr>ev_fields := ev_fields ev @ [(k, Int64Field v)]\<rparr>"

definition Dur :: "string \<Rightarrow> Duration \<Rightarrow> Event \<Rightarrow> Event" where
  "Dur k v ev = ev\<lparr>ev_fields := ev_fields ev @ [(k, DurField v)]\<rparr>"

definition Err :: "error \<Rightarrow> Event \<Rightarrow> Event" where
  "Err err ev = ev\<lparr>ev_fields := ev_fields ev @ [(''error'', ErrField err)]\<rparr>"

text \<open>The methods of \<^verbatim>\<open>*zerolog.Event\<close> that the adapter calls; all accept nil.\<close>

definition Event_Err :: "error \<Rightarrow> Event option \<Rightarrow> Event option" where
  "Event_Err err e = (case e of None \<Rightarrow> None | Some ev \<Rightarrow> Some (Err err ev))"

definition Event_Enabled :: "Event option \<Rightarrow> bool" where
  "Event_Enabled e = (case e of None \<Rightarrow> False | Some ev \<Rightarrow> ev_level ev \<noteq> zerolog_Disabled)"

text \<open>
  \<^verbatim>\<open>Discard\<close> disables the event it is called on and returns nil. The adapter only
  uses what it returns.
\<close>

definition Event_Discard :: "Event option \<Rightarrow> Event option" where
  "Event_Discard e = None"

text \<open>
  \<^verbatim>\<open>Func\<close> runs the callback only on an enabled event. A callback may read the lazy
  supplier, whose state \<open>'s\<close> is threaded through.
\<close>

definition Event_Func ::
  "(Event \<Rightarrow> 's \<Rightarrow> Event \<times> 's) \<Rightarrow> Event option \<Rightarrow> 's \<Rightarrow> Event option \<times> 's" where
  "Event_Func f e s =
     (case e of
        None \<Rightarrow> (None, s)
      | Some ev \<Rightarrow>
          if Event_Enabled e then (case f ev s of (ev', s') \<Rightarrow> (Some ev', s'))
          else (e, s))"

text \<open>
  What \<^verbatim>\<open>Msg\<close> does first: \<^verbatim>\<open>for _, hook := range e.ch { hook.Run(e, e.level, msg) }\<close>.
  A later hook sees the level that an earlier one left.
\<close>

definition run_hook :: "Hook \<Rightarrow> string \<Rightarrow> Event \<Rightarrow> Event" where
  "run_hook h msg ev =
     (case h (ev_level ev) msg of
        (discard, fs) \<Rightarrow>
          (let ev1 = ev\<lparr>ev_fields := ev_fields ev @ fs\<rparr>
           in if discard then ev1\<lparr>ev_level := zerolog_Disabled\<rparr> else ev1))"

fun run_hooks :: "Hook list \<Rightarrow> string \<Rightarrow> Event \<Rightarrow> Event" where
  "run_hooks [] msg ev = ev"
| "run_hooks (h # hs) msg ev = run_hooks hs msg (run_hook h msg ev)"

text \<open>
  \<^verbatim>\<open>Msg\<close> does nothing on nil. Otherwise it runs the hooks on the event and then writes
  it unless it is disabled. The result is what is written, and the event as \<^verbatim>\<open>Msg\<close>
  leaves it, which the caller still holds.
\<close>

definition Event_Msg :: "string \<Rightarrow> Event option \<Rightarrow> Entry list \<times> Event option" where
  "Event_Msg msg e =
     (case e of
        None \<Rightarrow> ([], None)
      | Some ev \<Rightarrow>
          (let ev' = run_hooks (ev_ch ev) msg ev
           in (if ev_level ev' \<noteq> zerolog_Disabled
               then [\<lparr>en_level = ev_level ev', en_fields = ev_fields ev', en_message = msg\<rparr>]
               else [],
               Some ev')))"

section \<open>Level mapping (logger.go)\<close>

definition DefaultLogLevelMap :: "LogLevel \<Rightarrow> Level" where
  "DefaultLogLevelMap i =
     (if i \<le> logger_Silent then zerolog_Disabled
      else if i = logger_Error then zerolog_ErrorLevel
      else if i = logger_Warn then zerolog_WarnLevel
      else zerolog_DebugLevel)"

definition WithTimeTracking :: "LogLevel \<Rightarrow> Level" where
  "WithTimeTracking i =
     (if i \<le> logger_Silent then zerolog_Disabled
      else if i = logger_Error then zerolog_ErrorLevel
      else if i = logger_Warn then zerolog_WarnLevel
      else zerolog_TraceLevel)"

section \<open>Configuration (config.go)\<close>

text \<open>
  A level selector of the configuration is a Go function value; a nil function is
  \<open>None\<close>. Selectors and the hook are functions that return. \<^verbatim>\<open>UseFatal\<close>, whose
  event ends the process, is not among the selectors here.
\<close>

definition Ignore :: "zerolog_Logger \<Rightarrow> Event option" where
  "Ignore l = Event_Discard (zerolog_Logger_Trace l)"

definition UseError :: "zerolog_Logger \<Rightarrow> Event option" where
  "UseError l = zerolog_Logger_Error l"

definition UseWarn :: "zerolog_Logger \<Rightarrow> Event option" where
  "UseWarn l = zerolog_Logger_Warn l"

definition UseInfo :: "zerolog_Logger \<Rightarrow> Event option" where
  "UseInfo l = zerolog_Logger_Info l"

definition UseDebug :: "zerolog_Logger \<Rightarrow> Event option" where
  "UseDebug l = zerolog_Logger_Debug l"

definition UseTrace :: "zerolog_Logger \<Rightarrow> Event option" where
  "UseTrace l = zerolog_Logger_Trace l"

text \<open>
  The hook \<open>Customize\<close> receives the context and the event and may change the event in
  any way the event's methods allow: attach fields, or discard it (set its level to
  disabled). The hooks of an event are out of its reach in Go; what is proved for every
  function on events holds of it all the same.
\<close>

record 'c Config =
  SlowThreshold :: Duration
  SlowLevel :: "(zerolog_Logger \<Rightarrow> Event option) option"
  Duration :: string
  ErrorLevel :: "(error \<Rightarrow> zerolog_Logger \<Rightarrow> Event option) option"
  ParameterizedQueries :: bool
  DumpLevel :: "(zerolog_Logger \<Rightarrow> Event option) option"
  DumpWithDuration :: bool
  SQL :: string
  AffectedRows :: string
  Customize :: "('c \<Rightarrow> Event \<Rightarrow> Event) option"

definition key :: "string \<Rightarrow> string \<Rightarrow> string" where
  "key val defaults = (if val \<noteq> [] then val else defaults)"

definition sqlKey :: "'c Config \<Rightarrow> string" where
  "sqlKey c = key (SQL c) ''sql''"

definition durKey :: "'c Config \<Rightarrow> string" where
  "durKey c = key (Duration c) ''duration''"

definition rowKey :: "'c Config \<Rightarrow> string" where
  "rowKey c = key (AffectedRows c) ''affected_rows''"

definition errLevel :: "'c Config \<Rightarrow> error \<Rightarrow> zerolog_Logger \<Rightarrow> Event option" where
  "errLevel c err l =
     (case ErrorLevel c of
        None \<Rightarrow> Event_Err err (UseError l)
      | Some sel \<Rightarrow> sel err l)"

definition level ::
  "(zerolog_Logger \<Rightarrow> Event option) option \<Rightarrow> (zerolog_Logger \<Rightarrow> Event option)
     \<Rightarrow> (zerolog_Logger \<Rightarrow> Event option)" where
  "level val defaults = (case val of None \<Rightarrow> defaults | Some sel \<Rightarrow> sel)"

definition slowLevel :: "'c Config \<Rightarrow> zerolog_Logger \<Rightarrow> Event option" where
  "slowLevel c l = level (SlowLevel c) UseWarn l"

definition dumpLevel :: "'c Config \<Rightarrow> zerolog_Logger \<Rightarrow> Event option" where
  "dumpLevel c l = level (DumpLevel c) UseDebug l"

definition custom :: "'c Config \<Rightarrow> 'c \<Rightarrow> Event \<Rightarrow> 's \<Rightarrow> Event \<times> 's" where
  "custom c ctx ev s =
     (case Customize c of None \<Rightarrow> (ev, s) | Some g \<Rightarrow> (g ctx ev, s))"

text \<open>
  The lazy supplier \<^verbatim>\<open>f func() (string, int64)\<close> is a closure: a call returns the SQL
  text and the row count and may change the closure's own state \<open>'s\<close>.
\<close>

type_synonym 's supplier = "'s \<Rightarrow> (string \<times> int64) \<times> 's"

definition logErr :: "'c Config \<Rightarrow> error \<Rightarrow> 's supplier \<Rightarrow> Event \<Rightarrow> 's \<Rightarrow> Event \<times> 's" where
  "logErr c err f ev s =
     (case f s of
        ((sql, rows), s') \<Rightarrow>
          (let ev1 = Str (sqlKey c) sql (Err err ev)
           in (if rows \<noteq> - 1 then Int64 (rowKey c) rows ev1 else ev1, s')))"

definition logSlow :: "'c Config \<Rightarrow> Duration \<Rightarrow> 's supplier \<Rightarrow> Event \<Rightarrow> 's \<Rightarrow> Event \<times> 's" where
  "logSlow c dur f ev s =
     (case f s of
        ((sql, rows), s') \<Rightarrow>
          (let ev1 = Str (sqlKey c) sql (Dur (durKey c) dur ev)
           in (if rows \<noteq> - 1 then Int64 (rowKey c) rows ev1 else ev1, s')))"

definition logDump :: "'c Config \<Rightarrow> Duration \<Rightarrow> 's supplier \<Rightarrow> Event \<Rightarrow> 's \<Rightarrow> Event \<times> 's" where
  "logDump c dur f ev s =
     (let ev0 = (if DumpWithDuration c then Dur (durKey c) dur ev else ev)
      in case f s of
           ((sql, rows), s') \<Rightarrow>
             (let ev1 = Str (sqlKey c) sql ev0
              in (if rows \<noteq> - 1 then Int64 (rowKey c) rows ev1 else ev1, s')))"

section \<open>Error classification (helper.go)\<close>

definition LogErrorAt ::
  "(zerolog_Logger \<Rightarrow> Event option) \<Rightarrow> (error \<Rightarrow> bool)
     \<Rightarrow> error \<Rightarrow> zerolog_Logger \<Rightarrow> Event option" where
  "LogErrorAt lvl cmpErr err l = (if cmpErr err then lvl l else UseError l)"

definition CommonError :: "error \<Rightarrow> bool" where
  "CommonError err =
     (errors_Is err gorm_ErrRecordNotFound \<or> errors_Is err gorm_ErrDuplicatedKey)"

definition IgnoreCommonErr :: "error \<Rightarrow> zerolog_Logger \<Rightarrow> Event option" where
  "IgnoreCommonErr e l = LogErrorAt UseTrace CommonError e l"

definition DebugCommonErr :: "error \<Rightarrow> zerolog_Logger \<Rightarrow> Event option" where
  "DebugCommonErr e l = LogErrorAt UseDebug CommonError e l"

section \<open>The adapter (logger.go)\<close>

record 'c Logger =
  Logger :: zerolog_Logger
  Config :: "'c Config"

text \<open>The struct that \<open>LogMode\<close> builds from the receiver's.\<close>

definition LogMode :: "'c Logger \<Rightarrow> LogLevel \<Rightarrow> 'c Logger" where
  "LogMode l lv =
     (let lvl = (if lv \<le> logger_Silent then zerolog_Disabled
                 else if lv = logger_Error then zerolog_ErrorLevel
                 else if lv = logger_Warn then zerolog_WarnLevel
                 else zerolog_DebugLevel)
      in \<lparr>Logger = zerolog_Logger_Level (Logger l) lvl, Config = Config l\<rparr>)"

text \<open>
  \<open>Trace\<close>. The elapsed time \<^verbatim>\<open>time.Since(begin)\<close> is read from a clock \<open>since\<close>. The
  result is what the call writes to the log, in order, and the state in which it leaves
  the supplier. The test \<^verbatim>\<open>ev.Enabled()\<close> comes after \<^verbatim>\<open>Msg\<close> and reads the event as
  \<^verbatim>\<open>Msg\<close> left it, the hooks having run.
\<close>

definition Trace ::
  "('t \<Rightarrow> Duration) \<Rightarrow> 'c Logger \<Rightarrow> 'c \<Rightarrow> 't \<Rightarrow> 's supplier \<Rightarrow> error option \<Rightarrow> 's
     \<Rightarrow> Entry list \<times> 's" where
  "Trace since l ctx begin f err s =
     (let dur = since begin;
          c = Config l;
          (out, stop, s1) =
            (case err of
               None \<Rightarrow> ([], False, s)
             | Some e \<Rightarrow>
                 (let ev = errLevel c e (Logger l);
                      (ev1, sa) = Event_Func (custom c ctx) ev s;
                      (ev2, sb) = Event_Func (logErr c e f) ev1 sa;
                      (wr, ev3) = Event_Msg ''a sql error occurred'' ev2
                  in (wr, Event_Enabled ev3, sb)))
      in if stop then (out, s1)
         else if 0 <s SlowThreshold c \<and> SlowThreshold c \<le>s dur then
           (let (ev1, sa) = Event_Func (custom c ctx) (slowLevel c (Logger l)) s1;
                (ev2, sb) = Event_Func (logSlow c dur f) ev1 sa;
                (wr, ev3) = Event_Msg ''sql query time exceeds threshold'' ev2
            in (out @ wr, sb))
         else
           (let (ev1, sa) = Event_Func (custom c ctx) (dumpLevel c (Logger l)) s1;
                (ev2, sb) = Event_Func (logDump c dur f) ev1 sa;
                (wr, ev3) = Event_Msg ''dump sql'' ev2
            in (out @ wr, sb)))"

text \<open>A nil slice is \<open>None\<close>.\<close>

definition ParamsFilter ::
  "'c Logger \<Rightarrow> 'c \<Rightarrow> string \<Rightarrow> 'p list option \<Rightarrow> string \<times> 'p list option" where
  "ParamsFilter l ctx sql params =
     (if ParameterizedQueries (Config l) then (sql, None) else (sql, params))"

text \<open>
  The three plain-message methods. \<^verbatim>\<open>Msgf\<close> formats with \<^verbatim>\<open>fmt.Sprintf\<close>, which is
  the parameter \<open>sprintf\<close>.
\<close>

definition Event_Msgf ::
  "(string \<Rightarrow> 'a list \<Rightarrow> string) \<Rightarrow> string \<Rightarrow> 'a list \<Rightarrow> Event option \<Rightarrow> Entry list" where
  "Event_Msgf sprintf format v e =
     (case e of None \<Rightarrow> [] | Some ev \<Rightarrow> fst (Event_Msg (sprintf format v) e))"

definition Info ::
  "(string \<Rightarrow> 'a list \<Rightarrow> string) \<Rightarrow> 'c Logger \<Rightarrow> 'c \<Rightarrow> string \<Rightarrow> 'a list \<Rightarrow> Entry list" where
  "Info sprintf l ctx msg args =
     Event_Msgf sprintf msg args
       (fst (Event_Func (custom (Config l) ctx) (zerolog_Logger_Info (Logger l)) ()))"

definition Warn ::
  "(string \<Rightarrow> 'a list \<Rightarrow> string) \<Rightarrow> 'c Logger \<Rightarrow> 'c \<Rightarrow> string \<Rightarrow> 'a list \<Rightarrow> Entry list" where
  "Warn sprintf l ctx msg args =
     Event_Msgf sprintf msg args
       (fst (Event_Func (custom (Config l) ctx) (zerolog_Logger_Warn (Logger l)) ()))"

definition Error ::
  "(string \<Rightarrow> 'a list \<Rightarrow> string) \<Rightarrow> 'c Logger \<Rightarrow> 'c \<Rightarrow> string \<Rightarrow> 'a list \<Rightarrow> Entry list" where
  "Error sprintf l ctx msg args =
     Event_Msgf sprintf msg args
       (fst (Event_Func (custom (Config l) ctx) (zerolog_Logger_Error (Logger l)) ()))"

subsection \<open>Adapter instances in memory\<close>

text \<open>
  The methods have pointer receivers, and \<open>LogMode\<close> returns a pointer to a struct it
  allocates. The store holds the adapter instances allocated so far; an address is an
  index into it, and an address outside it is the nil pointer, whose dereference panics
  (\<open>None\<close>). Allocation appends.
\<close>

type_synonym 'c store = "'c Logger list"

definition deref :: "'c store \<Rightarrow> nat \<Rightarrow> 'c Logger option" where
  "deref h p = (if p < length h then Some (h ! p) else None)"

definition LogMode_at :: "'c store \<Rightarrow> nat \<Rightarrow> LogLevel \<Rightarrow> ('c store \<times> nat) option" where
  "LogMode_at h p lv =
     (case deref h p of
        None \<Rightarrow> None
      | Some l \<Rightarrow> Some (h @ [LogMode l lv], length h))"

text \<open>A method that only reads its receiver, called through a pointer.\<close>

definition call_at :: "'c store \<Rightarrow> nat \<Rightarrow> ('c Logger \<Rightarrow> 'r) \<Rightarrow> 'r option" where
  "call_at h p m = (case deref h p of None \<Rightarrow> None | Some l \<Rightarrow> Some (m l))"

section \<open>Notions used to state the properties\<close>

text \<open>
  The event that a selector returned, after \<^verbatim>\<open>Func(l.custom(ctx))\<close> has run on it.
  The hook does not touch the supplier, so this needs no supplier state.
\<close>

definition hooked :: "'c Config \<Rightarrow> 'c \<Rightarrow> Event option \<Rightarrow> Event option" where
  "hooked c ctx e = fst (Event_Func (custom c ctx) e ())"

text \<open>
  What the hooks of an event do to it in \<^verbatim>\<open>Msg\<close>: the level they leave, and the fields
  they attach, for an event of a given level.
\<close>

fun hooks_level :: "Hook list \<Rightarrow> string \<Rightarrow> Level \<Rightarrow> Level" where
  "hooks_level [] msg lv = lv"
| "hooks_level (h # hs) msg lv =
     hooks_level hs msg (if fst (h lv msg) then zerolog_Disabled else lv)"

fun hooks_fields :: "Hook list \<Rightarrow> string \<Rightarrow> Level \<Rightarrow> (string \<times> fieldval) list" where
  "hooks_fields [] msg lv = []"
| "hooks_fields (h # hs) msg lv =
     snd (h lv msg) @ hooks_fields hs msg (if fst (h lv msg) then zerolog_Disabled else lv)"

text \<open>
  The event that a selector returned is written with the message \<open>msg\<close>: it is enabled
  after the customization hook has run on it and still after the hooks of the logger
  have run in \<^verbatim>\<open>Msg\<close>.
\<close>

definition written :: "'c Config \<Rightarrow> 'c \<Rightarrow> string \<Rightarrow> Event option \<Rightarrow> bool" where
  "written c ctx msg e = Event_Enabled (snd (Event_Msg msg (hooked c ctx e)))"

text \<open>
  The state of the supplier when the error path is left without a message: the error
  formatter has read the supplier if the error event was enabled after the customization
  hook.
\<close>

definition after_error :: "'c Logger \<Rightarrow> 'c \<Rightarrow> 's supplier \<Rightarrow> error option \<Rightarrow> 's \<Rightarrow> 's" where
  "after_error l ctx f err s =
     (case err of
        None \<Rightarrow> s
      | Some e \<Rightarrow>
          if Event_Enabled (hooked (Config l) ctx (errLevel (Config l) e (Logger l)))
          then snd (f s) else s)"

text \<open>The errors that \<^verbatim>\<open>errors.Is\<close> visits: the error itself, then what it wraps.\<close>

fun unwrap_chain :: "error \<Rightarrow> error list" where
  "unwrap_chain (fmt_Errorf m e) = fmt_Errorf m e # unwrap_chain e"
| "unwrap_chain e = [e]"

text \<open>A supplier that counts its invocations next to its own state.\<close>

definition counted :: "'s supplier \<Rightarrow> (nat \<times> 's) supplier" where
  "counted f ns = (case f (snd ns) of (r, s') \<Rightarrow> (r, (Suc (fst ns), s')))"

text \<open>
  Concrete inputs: the zero value of \<open>Config\<close>, a clock, a supplier, a customization
  hook that discards, a hook of a logger that discards the events of one level.
\<close>

definition Config_zero :: "unit Config" where
  "Config_zero =
     \<lparr>SlowThreshold = 0, SlowLevel = None, Duration = [], ErrorLevel = None,
      ParameterizedQueries = False, DumpLevel = None, DumpWithDuration = False,
      SQL = [], AffectedRows = [], Customize = None\<rparr>"

definition fixed_clock :: "Duration \<Rightarrow> unit \<Rightarrow> Duration" where
  "fixed_clock d t = d"

definition fixed_supplier :: "string \<Rightarrow> int64 \<Rightarrow> unit supplier" where
  "fixed_supplier sql rows s = ((sql, rows), s)"


definition discard_level :: "Level \<Rightarrow> Hook" where
  "discard_level lv lvl msg = (lvl = lv, [])"

text \<open>An adapter whose logger writes and has the given threshold and hooks.\<close>

definition hook_logger :: "Hook list \<Rightarrow> Level \<Rightarrow> unit Config \<Rightarrow> unit Logger" where
  "hook_logger hs lvl c =
     \<lparr>Logger = \<lparr>lg_w = True, lg_level = lvl, lg_hooks = hs\<rparr>, Config = c\<rparr>"

definition example_logger :: "Level \<Rightarrow> unit Config \<Rightarrow> unit Logger" where
  "example_logger lvl c = hook_logger [] lvl c"

section \<open>The event chain and the paths of Trace\<close>

lemma Func_custom: "Event_Func (custom c ctx) e s = (hooked c ctx e, s)"
  by (simp add: hooked_def Event_Func_def custom_def split: option.splits)

lemma hooked_disabled: "\<not> Event_Enabled e \<Longrightarrow> hooked c ctx e = e"
  by (cases e) (simp_all add: hooked_def Event_Func_def)


lemma Enabled_Some: "Event_Enabled e \<Longrightarrow> \<exists>ev. e = Some ev \<and> ev_level ev \<noteq> zerolog_Disabled"
  by (cases e) (simp_all add: Event_Enabled_def)

lemma logErr_eq:
  "f s = ((sql, rows), s') \<Longrightarrow>
   logErr c err f ev s =
     (ev\<lparr>ev_fields := ev_fields ev @ [(''error'', ErrField err), (sqlKey c, StrField sql)]
          @ (if rows \<noteq> - 1 then [(rowKey c, Int64Field rows)] else [])\<rparr>, s')"
  by (simp add: logErr_def Str_def Err_def Int64_def)

lemma logSlow_eq:
  "f s = ((sql, rows), s') \<Longrightarrow>
   logSlow c dur f ev s =
     (ev\<lparr>ev_fields := ev_fields ev @ [(durKey c, DurField dur), (sqlKey c, StrField sql)]
          @ (if rows \<noteq> - 1 then [(rowKey c, Int64Field rows)] else [])\<rparr>, s')"
  by (simp add: logSlow_def Str_def Dur_def Int64_def)

lemma logDump_eq:
  "f s = ((sql, rows), s') \<Longrightarrow>
   logDump c dur f ev s =
     (ev\<lparr>ev_fields := ev_fields ev
          @ (if DumpWithDuration c then [(durKey c, DurField dur)] else [])
          @ [(sqlKey c, StrField sql)]
          @ (if rows \<noteq> - 1 then [(rowKey c, Int64Field rows)] else [])\<rparr>, s')"
  by (simp add: logDump_def Str_def Dur_def Int64_def)

text \<open>The hooks in \<^verbatim>\<open>Msg\<close>: they set the level and append fields.\<close>

lemma run_hooks_eq:
  "run_hooks hs msg ev =
     ev\<lparr>ev_level := hooks_level hs msg (ev_level ev),
        ev_fields := ev_fields ev @ hooks_fields hs msg (ev_level ev)\<rparr>"
proof (induction hs arbitrary: ev)
  case Nil
  show ?case by simp
next
  case (Cons h hs)
  show ?case
    by (cases "h (ev_level ev) msg") (simp add: Cons.IH run_hook_def)
qed

lemma hooks_level_Disabled: "hooks_level hs msg zerolog_Disabled = zerolog_Disabled"
  by (induction hs) simp_all

lemma hooks_level_cases:
  "hooks_level hs msg lv = lv \<or> hooks_level hs msg lv = zerolog_Disabled"
  by (induction hs arbitrary: lv) (auto simp add: hooks_level_Disabled)

lemma hooks_level_kept:
  "hooks_level hs msg lv \<noteq> zerolog_Disabled \<Longrightarrow> hooks_level hs msg lv = lv"
  using hooks_level_cases [of hs msg lv] by blast

lemma Msg_Some:
  "Event_Msg msg (Some ev) =
     (if hooks_level (ev_ch ev) msg (ev_level ev) \<noteq> zerolog_Disabled
      then [\<lparr>en_level = ev_level ev,
             en_fields = ev_fields ev @ hooks_fields (ev_ch ev) msg (ev_level ev),
             en_message = msg\<rparr>]
      else [],
      Some (run_hooks (ev_ch ev) msg ev))"
  by (simp add: Event_Msg_def Let_def run_hooks_eq hooks_level_kept)

lemma written_eq:
  "written c ctx msg e =
     (case hooked c ctx e of
        None \<Rightarrow> False
      | Some ev \<Rightarrow> hooks_level (ev_ch ev) msg (ev_level ev) \<noteq> zerolog_Disabled)"
  by (cases "hooked c ctx e")
     (simp_all add: written_def Event_Msg_def Event_Enabled_def Let_def run_hooks_eq)

lemma written_Enabled: "written c ctx msg e \<Longrightarrow> Event_Enabled (hooked c ctx e)"
  by (cases "hooked c ctx e")
     (auto simp add: written_eq Event_Enabled_def hooks_level_Disabled)

lemma written_no_hooks:
  "hooked c ctx e = Some ev \<Longrightarrow> ev_ch ev = [] \<Longrightarrow>
   written c ctx msg e = Event_Enabled (hooked c ctx e)"
  by (simp add: written_eq Event_Enabled_def)

text \<open>
  The chain \<^verbatim>\<open>ev.Func(l.custom(ctx)).Func(formatter).Msg(m)\<close> and the test of \<open>ev\<close>
  after it, for a formatter that appends \<open>body\<close> and leaves the supplier in \<open>s'\<close>.
\<close>

lemma chain_eq:
  assumes g: "\<And>ev. g ev s = (ev\<lparr>ev_fields := ev_fields ev @ body\<rparr>, s')"
  shows "(case Event_Func (custom c ctx) e s of
            (ev1, sa) \<Rightarrow>
              case Event_Func g ev1 sa of
                (ev2, sb) \<Rightarrow>
                  case Event_Msg m ev2 of (wr, ev3) \<Rightarrow> (wr, Event_Enabled ev3, sb))
         = (case hooked c ctx e of
              None \<Rightarrow> ([], False, s)
            | Some ev \<Rightarrow>
                if ev_level ev = zerolog_Disabled then ([], False, s)
                else if hooks_level (ev_ch ev) m (ev_level ev) \<noteq> zerolog_Disabled
                then ([\<lparr>en_level = ev_level ev,
                        en_fields = ev_fields ev @ body @ hooks_fields (ev_ch ev) m (ev_level ev),
                        en_message = m\<rparr>], True, s')
                else ([], False, s'))"
proof (cases "hooked c ctx e")
  case None
  then show ?thesis
    unfolding Func_custom
    by (simp add: Event_Func_def Event_Msg_def Event_Enabled_def)
next
  case (Some ev)
  show ?thesis
  proof (cases "ev_level ev = zerolog_Disabled")
    case True
    with Some show ?thesis
      unfolding Func_custom
      by (simp add: Event_Func_def Event_Enabled_def Msg_Some run_hooks_eq
          hooks_level_Disabled)
  next
    case False
    with Some show ?thesis
      unfolding Func_custom
      by (simp add: Event_Func_def Event_Enabled_def g Msg_Some run_hooks_eq)
  qed
qed

lemma Trace_None:
  "Trace since l ctx bgn f None s =
     (case (if 0 <s SlowThreshold (Config l) \<and> SlowThreshold (Config l) \<le>s since bgn
            then (case Event_Func (custom (Config l) ctx) (slowLevel (Config l) (Logger l)) s of
                    (ev1, sa) \<Rightarrow>
                      case Event_Func (logSlow (Config l) (since bgn) f) ev1 sa of
                        (ev2, sb) \<Rightarrow>
                          case Event_Msg ''sql query time exceeds threshold'' ev2 of
                            (wr, ev3) \<Rightarrow> (wr, Event_Enabled ev3, sb))
            else (case Event_Func (custom (Config l) ctx) (dumpLevel (Config l) (Logger l)) s of
                    (ev1, sa) \<Rightarrow>
                      case Event_Func (logDump (Config l) (since bgn) f) ev1 sa of
                        (ev2, sb) \<Rightarrow>
                          case Event_Msg ''dump sql'' ev2 of
                            (wr, ev3) \<Rightarrow> (wr, Event_Enabled ev3, sb)))
      of (wr, b, s') \<Rightarrow> (wr, s'))"
  by (simp add: Trace_def Let_def split: prod.splits)

lemma Trace_Some:
  "Trace since l ctx bgn f (Some e) s =
     (case (case Event_Func (custom (Config l) ctx) (errLevel (Config l) e (Logger l)) s of
              (ev1, sa) \<Rightarrow>
                case Event_Func (logErr (Config l) e f) ev1 sa of
                  (ev2, sb) \<Rightarrow>
                    case Event_Msg ''a sql error occurred'' ev2 of
                      (wr, ev3) \<Rightarrow> (wr, Event_Enabled ev3, sb))
      of (out, stop, s1) \<Rightarrow>
           if stop then (out, s1)
           else (case Trace since l ctx bgn f None s1 of (out', s2) \<Rightarrow> (out @ out', s2)))"
  by (simp add: Trace_def Let_def split: prod.splits)

lemma fmt_Err:
  "logErr c e f ev s =
     (ev\<lparr>ev_fields := ev_fields ev
          @ ([(''error'', ErrField e), (sqlKey c, StrField (fst (fst (f s))))]
             @ (if snd (fst (f s)) \<noteq> - 1 then [(rowKey c, Int64Field (snd (fst (f s))))] else []))\<rparr>,
      snd (f s))"
  using logErr_eq [of f s "fst (fst (f s))" "snd (fst (f s))" "snd (f s)" c e ev] by simp

lemma fmt_Slow:
  "logSlow c dur f ev s =
     (ev\<lparr>ev_fields := ev_fields ev
          @ ([(durKey c, DurField dur), (sqlKey c, StrField (fst (fst (f s))))]
             @ (if snd (fst (f s)) \<noteq> - 1 then [(rowKey c, Int64Field (snd (fst (f s))))] else []))\<rparr>,
      snd (f s))"
  using logSlow_eq [of f s "fst (fst (f s))" "snd (fst (f s))" "snd (f s)" c dur ev] by simp

lemma fmt_Dump:
  "logDump c dur f ev s =
     (ev\<lparr>ev_fields := ev_fields ev
          @ ((if DumpWithDuration c then [(durKey c, DurField dur)] else [])
             @ [(sqlKey c, StrField (fst (fst (f s))))]
             @ (if snd (fst (f s)) \<noteq> - 1 then [(rowKey c, Int64Field (snd (fst (f s))))] else []))\<rparr>,
      snd (f s))"
  using logDump_eq [of f s "fst (fst (f s))" "snd (fst (f s))" "snd (f s)" c dur ev] by simp

text \<open>A call in one equation: without an error, then with one.\<close>

lemma Trace_None_eq:
  "Trace since l ctx bgn f None s =
    (if 0 <s SlowThreshold (Config l) \<and> SlowThreshold (Config l) \<le>s since bgn then
       (case hooked (Config l) ctx (slowLevel (Config l) (Logger l)) of
          None \<Rightarrow> ([], s)
        | Some ev \<Rightarrow>
            if ev_level ev = zerolog_Disabled then ([], s)
            else
              (if hooks_level (ev_ch ev) ''sql query time exceeds threshold'' (ev_level ev)
                    \<noteq> zerolog_Disabled
               then [\<lparr>en_level = ev_level ev,
                      en_fields = ev_fields ev
                        @ [(durKey (Config l), DurField (since bgn)),
                           (sqlKey (Config l), StrField (fst (fst (f s))))]
                        @ (if snd (fst (f s)) \<noteq> - 1
                           then [(rowKey (Config l), Int64Field (snd (fst (f s))))] else [])
                        @ hooks_fields (ev_ch ev) ''sql query time exceeds threshold'' (ev_level ev),
                      en_message = ''sql query time exceeds threshold''\<rparr>]
               else [],
               snd (f s)))
     else
       (case hooked (Config l) ctx (dumpLevel (Config l) (Logger l)) of
          None \<Rightarrow> ([], s)
        | Some ev \<Rightarrow>
            if ev_level ev = zerolog_Disabled then ([], s)
            else
              (if hooks_level (ev_ch ev) ''dump sql'' (ev_level ev) \<noteq> zerolog_Disabled
               then [\<lparr>en_level = ev_level ev,
                      en_fields = ev_fields ev
                        @ (if DumpWithDuration (Config l)
                           then [(durKey (Config l), DurField (since bgn))] else [])
                        @ [(sqlKey (Config l), StrField (fst (fst (f s))))]
                        @ (if snd (fst (f s)) \<noteq> - 1
                           then [(rowKey (Config l), Int64Field (snd (fst (f s))))] else [])
                        @ hooks_fields (ev_ch ev) ''dump sql'' (ev_level ev),
                      en_message = ''dump sql''\<rparr>]
               else [],
               snd (f s))))"
proof (cases "0 <s SlowThreshold (Config l) \<and> SlowThreshold (Config l) \<le>s since bgn")
  case True
  then have c: "(0 <s SlowThreshold (Config l) \<and> SlowThreshold (Config l) \<le>s since bgn) = True"
    by simp
  show ?thesis
    unfolding Trace_None c if_True
    by (subst chain_eq [where g = "logSlow (Config l) (since bgn) f", OF fmt_Slow])
       (simp split: option.splits)
next
  case False
  then have c: "(0 <s SlowThreshold (Config l) \<and> SlowThreshold (Config l) \<le>s since bgn) = False"
    by simp
  show ?thesis
    unfolding Trace_None c if_False
    by (subst chain_eq [where g = "logDump (Config l) (since bgn) f", OF fmt_Dump])
       (simp split: option.splits)
qed

lemma Trace_Some_eq:
  "Trace since l ctx bgn f (Some e) s =
    (case hooked (Config l) ctx (errLevel (Config l) e (Logger l)) of
       None \<Rightarrow> Trace since l ctx bgn f None s
     | Some ev \<Rightarrow>
         if ev_level ev = zerolog_Disabled then Trace since l ctx bgn f None s
         else if hooks_level (ev_ch ev) ''a sql error occurred'' (ev_level ev) \<noteq> zerolog_Disabled
         then
           ([\<lparr>en_level = ev_level ev,
              en_fields = ev_fields ev
                @ [(''error'', ErrField e), (sqlKey (Config l), StrField (fst (fst (f s))))]
                @ (if snd (fst (f s)) \<noteq> - 1
                   then [(rowKey (Config l), Int64Field (snd (fst (f s))))] else [])
                @ hooks_fields (ev_ch ev) ''a sql error occurred'' (ev_level ev),
              en_message = ''a sql error occurred''\<rparr>], snd (f s))
         else Trace since l ctx bgn f None (snd (f s)))"
  unfolding Trace_Some
  by (subst chain_eq [where g = "logErr (Config l) e f", OF fmt_Err])
     (simp split: option.splits prod.splits)

text \<open>The call without an error: what it writes and where it leaves the supplier.\<close>

lemma Trace_None_empty:
  "(fst (Trace since l ctx bgn f None s) = []) =
     (\<not> (if 0 <s SlowThreshold (Config l) \<and> SlowThreshold (Config l) \<le>s since bgn
         then written (Config l) ctx ''sql query time exceeds threshold''
                (slowLevel (Config l) (Logger l))
         else written (Config l) ctx ''dump sql'' (dumpLevel (Config l) (Logger l))))"
  by (simp add: Trace_None_eq written_eq hooks_level_Disabled split: option.splits)

lemma Trace_None_shape:
  "fst (Trace since l ctx bgn f None s) = [] \<or>
   (\<exists>en. fst (Trace since l ctx bgn f None s) = [en] \<and>
      (en_message en = ''sql query time exceeds threshold'' \<or> en_message en = ''dump sql''))"
  by (simp add: Trace_None_eq split: option.splits)

lemma Trace_None_state:
  "snd (Trace since l ctx bgn f None s) =
     (if Event_Enabled (hooked (Config l) ctx
           (if 0 <s SlowThreshold (Config l) \<and> SlowThreshold (Config l) \<le>s since bgn
            then slowLevel (Config l) (Logger l) else dumpLevel (Config l) (Logger l)))
      then snd (f s) else s)"
  by (simp add: Trace_None_eq Event_Enabled_def split: option.splits)

text \<open>The call with an error, by what becomes of the error event.\<close>

lemma Trace_err_written:
  assumes "written (Config l) ctx ''a sql error occurred'' (errLevel (Config l) e (Logger l))"
  shows "\<exists>ev. hooked (Config l) ctx (errLevel (Config l) e (Logger l)) = Some ev \<and>
           Trace since l ctx bgn f (Some e) s =
             ([\<lparr>en_level = ev_level ev,
                en_fields = ev_fields ev
                  @ [(''error'', ErrField e), (sqlKey (Config l), StrField (fst (fst (f s))))]
                  @ (if snd (fst (f s)) \<noteq> - 1
                     then [(rowKey (Config l), Int64Field (snd (fst (f s))))] else [])
                  @ hooks_fields (ev_ch ev) ''a sql error occurred'' (ev_level ev),
                en_message = ''a sql error occurred''\<rparr>], snd (f s))"
proof (cases "hooked (Config l) ctx (errLevel (Config l) e (Logger l))")
  case None
  with assms show ?thesis by (simp add: written_eq)
next
  case (Some ev)
  with assms have "hooks_level (ev_ch ev) ''a sql error occurred'' (ev_level ev) \<noteq> zerolog_Disabled"
    by (simp add: written_eq)
  moreover from this have "ev_level ev \<noteq> zerolog_Disabled"
    by (auto simp add: hooks_level_Disabled)
  ultimately show ?thesis
    using Some by (simp add: Trace_Some_eq)
qed

lemma Trace_err_not_written:
  assumes "\<not> written (Config l) ctx ''a sql error occurred'' (errLevel (Config l) e (Logger l))"
  shows "Trace since l ctx bgn f (Some e) s =
           Trace since l ctx bgn f None (after_error l ctx f (Some e) s)"
  using assms
  by (simp add: Trace_Some_eq written_eq after_error_def Event_Enabled_def split: option.splits)




text \<open>The supplier state and the number of messages after a call.\<close>

lemma counted_apply: "counted f (n, s) = (fst (f s), (Suc n, snd (f s)))"
  by (simp add: counted_def split: prod.splits)

lemma Trace_state:
  "snd (Trace since l ctx bgn f err s) =
     (if (case err of
            None \<Rightarrow> False
          | Some e \<Rightarrow>
              written (Config l) ctx ''a sql error occurred'' (errLevel (Config l) e (Logger l)))
      then snd (f s)
      else if Event_Enabled (hooked (Config l) ctx
           (if 0 <s SlowThreshold (Config l) \<and> SlowThreshold (Config l) \<le>s since bgn
            then slowLevel (Config l) (Logger l) else dumpLevel (Config l) (Logger l)))
      then snd (f (after_error l ctx f err s))
      else after_error l ctx f err s)"
proof (cases err)
  case None
  then show ?thesis
    by (simp add: Trace_None_state after_error_def)
next
  case (Some e)
  show ?thesis
  proof (cases "written (Config l) ctx ''a sql error occurred'' (errLevel (Config l) e (Logger l))")
    case True
    from Trace_err_written [OF True, of since bgn f s] True Some show ?thesis
      by auto
  next
    case False
    from Trace_err_not_written [OF False, of since bgn f s] False Some show ?thesis
      by (simp add: Trace_None_state)
  qed
qed

lemma Trace_length:
  "length (fst (Trace since l ctx bgn f err s)) =
     (if (case err of
            None \<Rightarrow> False
          | Some e \<Rightarrow>
              written (Config l) ctx ''a sql error occurred'' (errLevel (Config l) e (Logger l)))
      then 1
      else if (if 0 <s SlowThreshold (Config l) \<and> SlowThreshold (Config l) \<le>s since bgn
               then written (Config l) ctx ''sql query time exceeds threshold''
                      (slowLevel (Config l) (Logger l))
               else written (Config l) ctx ''dump sql'' (dumpLevel (Config l) (Logger l)))
      then 1 else 0)"
proof (cases err)
  case None
  with Trace_None_shape [of since l ctx bgn f s] Trace_None_empty [of since l ctx bgn f s]
  show ?thesis by auto
next
  case (Some e)
  show ?thesis
  proof (cases "written (Config l) ctx ''a sql error occurred'' (errLevel (Config l) e (Logger l))")
    case True
    from Trace_err_written [OF True, of since bgn f s] True Some show ?thesis
      by auto
  next
    case False
    from Trace_err_not_written [OF False, of since bgn f s] False Some
      Trace_None_shape [of since l ctx bgn f "after_error l ctx f (Some e) s"]
      Trace_None_empty [of since l ctx bgn f "after_error l ctx f (Some e) s"]
    show ?thesis by auto
  qed
qed

lemma after_error_counted:
  "after_error l ctx (counted f) err (n, s) =
     (n + (case err of
             None \<Rightarrow> 0
           | Some e \<Rightarrow>
               if Event_Enabled (hooked (Config l) ctx (errLevel (Config l) e (Logger l)))
               then 1 else 0),
      after_error l ctx f err s)"
  by (simp add: after_error_def counted_apply split: option.splits)

text \<open>Unfolding the concrete inputs.\<close>

lemmas example_defs =
  example_logger_def hook_logger_def Config_zero_def hooked_def Event_Func_def custom_def
  Event_Enabled_def errLevel_def slowLevel_def dumpLevel_def level_def Event_Err_def Err_def
  UseError_def UseWarn_def UseDebug_def zerolog_Logger_Error_def zerolog_Logger_Warn_def
  zerolog_Logger_Debug_def newEvent_def should_def

text \<open>Mode switching and error matching.\<close>

lemma LogMode_eq:
  "LogMode l lv =
     \<lparr>Logger = zerolog_Logger_Level (Logger l) (DefaultLogLevelMap lv), Config = Config l\<rparr>"
  by (simp add: LogMode_def DefaultLogLevelMap_def Let_def)

lemma errors_Is_chain: "errors_Is err target = (target \<in> set (unwrap_chain err))"
  by (induction err) auto

section \<open>Trace: which messages are written\<close>

text \<open>
  Claim C1, as the code has it. A call to \<open>Trace\<close> writes at most one message, and a
  message it writes is one of the three path messages: never two of them. An event is
  written when it is enabled after the customization hook has run on it and still after
  the hooks of the logger have run in \<^verbatim>\<open>Msg\<close>. The call writes nothing exactly when the
  error event, if there is an error, is not written and the event of the slow path
  (threshold positive and reached) or else of the dump path is not written either.
\<close>

theorem Trace_at_most_one_message:
  "(fst (Trace since l ctx bgn f err s) = [] \<or>
    (\<exists>en. fst (Trace since l ctx bgn f err s) = [en] \<and>
       (en_message en = ''a sql error occurred'' \<or>
        en_message en = ''sql query time exceeds threshold'' \<or>
        en_message en = ''dump sql''))) \<and>
   (fst (Trace since l ctx bgn f err s) = []) =
     ((case err of
         None \<Rightarrow> True
       | Some e \<Rightarrow>
           \<not> written (Config l) ctx ''a sql error occurred'' (errLevel (Config l) e (Logger l))) \<and>
      \<not> (if 0 <s SlowThreshold (Config l) \<and> SlowThreshold (Config l) \<le>s since bgn
         then written (Config l) ctx ''sql query time exceeds threshold''
                (slowLevel (Config l) (Logger l))
         else written (Config l) ctx ''dump sql'' (dumpLevel (Config l) (Logger l))))"
proof (cases err)
  case None
  with Trace_None_shape [of since l ctx bgn f s] Trace_None_empty [of since l ctx bgn f s]
  show ?thesis by auto
next
  case (Some e)
  show ?thesis
  proof (cases "written (Config l) ctx ''a sql error occurred'' (errLevel (Config l) e (Logger l))")
    case True
    from Trace_err_written [OF True, of since bgn f s]
    obtain en where "Trace since l ctx bgn f (Some e) s = ([en], snd (f s))"
      "en_message en = ''a sql error occurred''"
      by auto
    with True Some show ?thesis by simp
  next
    case False
    have eq: "Trace since l ctx bgn f (Some e) s =
           Trace since l ctx bgn f None (after_error l ctx f (Some e) s)"
      using False by (rule Trace_err_not_written)
    from Trace_None_shape [of since l ctx bgn f "after_error l ctx f (Some e) s"]
      Trace_None_empty [of since l ctx bgn f "after_error l ctx f (Some e) s"]
      False Some
    show ?thesis
      unfolding Some eq by auto
  qed
qed

theorem Trace_at_most_one_message_witness:
  "\<exists>en. fst (Trace (fixed_clock 5) (example_logger zerolog_DebugLevel Config_zero) () ()
               (fixed_supplier ''SELECT 1'' 1) None ()) = [en] \<and>
     (en_message en = ''a sql error occurred'' \<or>
      en_message en = ''sql query time exceeds threshold'' \<or>
      en_message en = ''dump sql'')"
proof -
  let ?L = "example_logger zerolog_DebugLevel Config_zero"
  have h: "if 0 <s SlowThreshold (Config ?L) \<and> SlowThreshold (Config ?L) \<le>s fixed_clock 5 ()
           then written (Config ?L) () ''sql query time exceeds threshold''
                  (slowLevel (Config ?L) (Logger ?L))
           else written (Config ?L) () ''dump sql'' (dumpLevel (Config ?L) (Logger ?L))"
    by code_simp
  note T = Trace_at_most_one_message [where since = "fixed_clock 5" and l = ?L and ctx = "()"
      and bgn = "()" and f = "fixed_supplier ''SELECT 1'' 1" and err = None and s = "()"]
  from T [THEN conjunct2] h
  have ne: "fst (Trace (fixed_clock 5) ?L () () (fixed_supplier ''SELECT 1'' 1) None ()) \<noteq> []"
    by simp
  from T [THEN conjunct1] ne show ?thesis
    by blast
qed

text \<open>
  With a logger at warn level and the zero configuration, a query without error that is
  not slow is dumped at debug level, which the logger filters: no message is written.
\<close>

theorem Trace_no_message_counterexample:
  "fst (Trace (fixed_clock 5) (example_logger zerolog_WarnLevel Config_zero)
          () () (fixed_supplier ''SELECT 1'' 1) None ()) = []"
  by code_simp




section \<open>Level mapping\<close>

text \<open>
  Claim C3, as the code has it. Both level maps are functions of the verbosity value alone,
  defined on every value. \<open>Silent\<close> maps to the disabled level, and so does every value at
  or below \<open>Silent\<close>, recognised or not (the first case of the switch is
  \<^verbatim>\<open>i <= logger.Silent\<close>). Every value above \<open>Silent\<close> other than \<open>Error\<close> and
  \<open>Warn\<close> maps to the branch of \<open>Info\<close>: debug for \<open>DefaultLogLevelMap\<close>, trace for
  \<open>WithTimeTracking\<close>.
\<close>

theorem level_maps_by_range:
  "DefaultLogLevelMap logger_Silent = zerolog_Disabled \<and>
   WithTimeTracking logger_Silent = zerolog_Disabled \<and>
   (i \<le> logger_Silent \<longrightarrow>
      DefaultLogLevelMap i = zerolog_Disabled \<and> WithTimeTracking i = zerolog_Disabled) \<and>
   (logger_Silent < i \<and> i \<noteq> logger_Error \<and> i \<noteq> logger_Warn \<longrightarrow>
      DefaultLogLevelMap i = DefaultLogLevelMap logger_Info \<and>
      DefaultLogLevelMap i = zerolog_DebugLevel \<and>
      WithTimeTracking i = WithTimeTracking logger_Info \<and>
      WithTimeTracking i = zerolog_TraceLevel) \<and>
   DefaultLogLevelMap logger_Error = zerolog_ErrorLevel \<and>
   WithTimeTracking logger_Error = zerolog_ErrorLevel \<and>
   DefaultLogLevelMap logger_Warn = zerolog_WarnLevel \<and>
   WithTimeTracking logger_Warn = zerolog_WarnLevel"
  by (simp add: DefaultLogLevelMap_def WithTimeTracking_def logger_Silent_def logger_Error_def
      logger_Warn_def logger_Info_def)

theorem level_maps_by_range_witness:
  "DefaultLogLevelMap 0 = zerolog_Disabled \<and> WithTimeTracking 0 = zerolog_Disabled \<and>
   DefaultLogLevelMap 9 = zerolog_DebugLevel \<and> WithTimeTracking 9 = zerolog_TraceLevel"
proof -
  have lo: "(0::int) \<le> logger_Silent"
    by (simp add: logger_Silent_def)
  have hi: "logger_Silent < (9::int) \<and> (9::int) \<noteq> logger_Error \<and> (9::int) \<noteq> logger_Warn"
    by (simp add: logger_Silent_def logger_Error_def logger_Warn_def)
  from level_maps_by_range [of 0] lo level_maps_by_range [of 9] hi show ?thesis
    by blast
qed

text \<open>
  The verbosity 0 is none of the four named values, and it does not map to the branch
  of \<open>Info\<close>.
\<close>

theorem level_maps_unrecognized_counterexample:
  "(0::int) \<notin> {logger_Silent, logger_Error, logger_Warn, logger_Info} \<and>
   DefaultLogLevelMap 0 \<noteq> DefaultLogLevelMap logger_Info \<and>
   WithTimeTracking 0 \<noteq> WithTimeTracking logger_Info"
  by (simp add: DefaultLogLevelMap_def WithTimeTracking_def logger_Silent_def logger_Error_def
      logger_Warn_def logger_Info_def)

section \<open>Trace: the slow path, the supplier, the row count\<close>

text \<open>
  Claim C4, as the code has it. Take a call whose error event, if there is an error, is
  not written, with a positive \<open>SlowThreshold\<close> and an elapsed time that reaches it. If
  the slow event is written, the call writes exactly the slow message: that event with
  the duration under the duration key, the SQL text, the row count unless it is -1
  (both as the supplier returns them in the state the error path left) and what the
  logger's hooks attached. If the slow event is not written, the call writes nothing; if
  it is not even enabled after the customization hook, the slow formatter does not read
  the supplier. In every case no dump message is written.
\<close>

theorem Trace_slow_path:
  assumes "case err of
             None \<Rightarrow> True
           | Some e \<Rightarrow>
               \<not> written (Config l) ctx ''a sql error occurred'' (errLevel (Config l) e (Logger l))"
    and "0 <s SlowThreshold (Config l)"
    and "SlowThreshold (Config l) \<le>s since bgn"
  shows
  "(written (Config l) ctx ''sql query time exceeds threshold'' (slowLevel (Config l) (Logger l)) \<longrightarrow>
      (\<exists>ev. hooked (Config l) ctx (slowLevel (Config l) (Logger l)) = Some ev \<and>
         Trace since l ctx bgn f err s =
           ([\<lparr>en_level = ev_level ev,
              en_fields = ev_fields ev
                @ [(durKey (Config l), DurField (since bgn)),
                   (sqlKey (Config l), StrField (fst (fst (f (after_error l ctx f err s)))))]
                @ (if snd (fst (f (after_error l ctx f err s))) \<noteq> - 1
                   then [(rowKey (Config l),
                          Int64Field (snd (fst (f (after_error l ctx f err s)))))]
                   else [])
                @ hooks_fields (ev_ch ev) ''sql query time exceeds threshold'' (ev_level ev),
              en_message = ''sql query time exceeds threshold''\<rparr>],
            snd (f (after_error l ctx f err s))))) \<and>
   (\<not> written (Config l) ctx ''sql query time exceeds threshold''
        (slowLevel (Config l) (Logger l)) \<longrightarrow>
      fst (Trace since l ctx bgn f err s) = []) \<and>
   (\<not> Event_Enabled (hooked (Config l) ctx (slowLevel (Config l) (Logger l))) \<longrightarrow>
      Trace since l ctx bgn f err s = ([], after_error l ctx f err s)) \<and>
   after_error l ctx f None s = s \<and>
   ''dump sql'' \<notin> en_message ` set (fst (Trace since l ctx bgn f err s))"
proof -
  let ?s1 = "after_error l ctx f err s"
  have same: "Trace since l ctx bgn f err s = Trace since l ctx bgn f None ?s1"
  proof (cases err)
    case None
    then show ?thesis by (simp add: after_error_def)
  next
    case (Some e)
    with assms(1)
    have "\<not> written (Config l) ctx ''a sql error occurred'' (errLevel (Config l) e (Logger l))"
      by simp
    then have "Trace since l ctx bgn f (Some e) s =
           Trace since l ctx bgn f None (after_error l ctx f (Some e) s)"
      by (rule Trace_err_not_written)
    with Some show ?thesis by simp
  qed
  have c: "(0 <s SlowThreshold (Config l) \<and> SlowThreshold (Config l) \<le>s since bgn) = True"
    using assms(2,3) by simp
  have n: "after_error l ctx f None s = s"
    by (simp add: after_error_def)
  show ?thesis
    unfolding same Trace_None_eq [of since l ctx bgn f ?s1] c n
    by (cases "hooked (Config l) ctx (slowLevel (Config l) (Logger l))")
       (auto simp add: written_eq Event_Enabled_def hooks_level_Disabled)
qed

theorem Trace_slow_path_witness:
  "Trace (fixed_clock 4000000000)
      (example_logger zerolog_WarnLevel (Config_zero\<lparr>SlowThreshold := 3000000000\<rparr>))
      () () (fixed_supplier ''SELECT 1'' (- 1)) None ()
     = ([\<lparr>en_level = zerolog_WarnLevel,
          en_fields = [(''duration'', DurField 4000000000), (''sql'', StrField ''SELECT 1'')],
          en_message = ''sql query time exceeds threshold''\<rparr>], ())"
proof -
  let ?L = "example_logger zerolog_WarnLevel (Config_zero\<lparr>SlowThreshold := 3000000000\<rparr>)"
  have h1: "case None :: error option of
              None \<Rightarrow> True
            | Some e \<Rightarrow>
                \<not> written (Config ?L) () ''a sql error occurred'' (errLevel (Config ?L) e (Logger ?L))"
    by simp
  have h2: "0 <s SlowThreshold (Config ?L)"
    by code_simp
  have h3: "SlowThreshold (Config ?L) \<le>s fixed_clock 4000000000 ()"
    by code_simp
  have wr: "written (Config ?L) () ''sql query time exceeds threshold''
              (slowLevel (Config ?L) (Logger ?L))"
    by code_simp
  have hk: "hooked (Config ?L) () (slowLevel (Config ?L) (Logger ?L))
      = Some \<lparr>ev_level = zerolog_WarnLevel, ev_fields = [], ev_ch = []\<rparr>"
    by (simp add: example_defs)
  have keys: "sqlKey (Config ?L) = ''sql''" "durKey (Config ?L) = ''duration''"
    "fixed_supplier ''SELECT 1'' (- 1) () = ((''SELECT 1'', - 1), ())"
    "fixed_clock 4000000000 () = 4000000000"
    by code_simp+
  note T = Trace_slow_path [where err = None and l = ?L and ctx = "()"
      and since = "fixed_clock 4000000000" and bgn = "()"
      and f = "fixed_supplier ''SELECT 1'' (- 1)" and s = "()", OF h1 h2 h3]
  from T [THEN conjunct1] wr T [THEN conjunct2, THEN conjunct2, THEN conjunct2, THEN conjunct1]
  show ?thesis
    by (simp add: hk keys)
qed

text \<open>
  With a logger at error level, the slow event, at warn level by default, is filtered:
  the threshold is positive and reached, and no message is written.
\<close>

theorem Trace_slow_filtered_counterexample:
  "0 <s SlowThreshold (Config (example_logger zerolog_ErrorLevel (Config_zero\<lparr>SlowThreshold := 3\<rparr>))) \<and>
   SlowThreshold (Config (example_logger zerolog_ErrorLevel (Config_zero\<lparr>SlowThreshold := 3\<rparr>)))
     \<le>s fixed_clock 5 () \<and>
   fst (Trace (fixed_clock 5) (example_logger zerolog_ErrorLevel (Config_zero\<lparr>SlowThreshold := 3\<rparr>))
          () () (fixed_supplier ''SELECT 1'' 1) None ()) = []"
  by code_simp

text \<open>
  Claim C5, as the code has it. Count the calls of the supplier. The error formatter
  calls it once if there is an error whose event is enabled after the customization
  hook. If no error message is written, the slow or dump formatter calls it once if the
  event of its path is enabled after the customization hook. The count of a call to
  \<open>Trace\<close> is the sum: at most two, and two only if there is an error whose event was
  enabled when the error formatter ran and was then discarded by a hook of the logger in
  \<^verbatim>\<open>Msg\<close>. The number of messages written, at most one, is at most the count. When
  every candidate event is disabled (the error event if there is an error, the slow event
  and the dump event), nothing is written and the supplier is not called.
\<close>

theorem supplier_reads:
  "fst (snd (Trace since l ctx bgn (counted f) err (0, s)))
     = (case err of
          None \<Rightarrow> 0
        | Some e \<Rightarrow>
            if Event_Enabled (hooked (Config l) ctx (errLevel (Config l) e (Logger l)))
            then 1 else 0)
       + (if (case err of
                None \<Rightarrow> False
              | Some e \<Rightarrow>
                  written (Config l) ctx ''a sql error occurred''
                    (errLevel (Config l) e (Logger l)))
          then 0
          else if Event_Enabled (hooked (Config l) ctx
                 (if 0 <s SlowThreshold (Config l) \<and> SlowThreshold (Config l) \<le>s since bgn
                  then slowLevel (Config l) (Logger l) else dumpLevel (Config l) (Logger l)))
          then 1 else 0) \<and>
   fst (snd (Trace since l ctx bgn (counted f) err (0, s))) \<le> 2 \<and>
   length (fst (Trace since l ctx bgn (counted f) err (0, s)))
     \<le> fst (snd (Trace since l ctx bgn (counted f) err (0, s))) \<and>
   length (fst (Trace since l ctx bgn (counted f) err (0, s))) \<le> 1 \<and>
   (fst (snd (Trace since l ctx bgn (counted f) err (0, s))) = 2 \<longrightarrow>
      (\<exists>e. err = Some e \<and>
           Event_Enabled (hooked (Config l) ctx (errLevel (Config l) e (Logger l))) \<and>
           \<not> written (Config l) ctx ''a sql error occurred''
               (errLevel (Config l) e (Logger l)))) \<and>
   ((case err of
       None \<Rightarrow> True
     | Some e \<Rightarrow> \<not> Event_Enabled (errLevel (Config l) e (Logger l))) \<and>
    \<not> Event_Enabled (slowLevel (Config l) (Logger l)) \<and>
    \<not> Event_Enabled (dumpLevel (Config l) (Logger l)) \<longrightarrow>
      Trace since l ctx bgn f err s = ([], s))"
proof -
  let ?n = "fst (snd (Trace since l ctx bgn (counted f) err (0, s)))"
  let ?E = "case err of
          None \<Rightarrow> False
        | Some e \<Rightarrow> Event_Enabled (hooked (Config l) ctx (errLevel (Config l) e (Logger l)))"
  let ?W = "case err of
                None \<Rightarrow> False
              | Some e \<Rightarrow>
                  written (Config l) ctx ''a sql error occurred''
                    (errLevel (Config l) e (Logger l))"
  let ?P = "Event_Enabled (hooked (Config l) ctx
                 (if 0 <s SlowThreshold (Config l) \<and> SlowThreshold (Config l) \<le>s since bgn
                  then slowLevel (Config l) (Logger l) else dumpLevel (Config l) (Logger l)))"
  let ?PW = "if 0 <s SlowThreshold (Config l) \<and> SlowThreshold (Config l) \<le>s since bgn
               then written (Config l) ctx ''sql query time exceeds threshold''
                      (slowLevel (Config l) (Logger l))
               else written (Config l) ctx ''dump sql'' (dumpLevel (Config l) (Logger l))"
  have WE: "?W \<Longrightarrow> ?E"
    by (auto split: option.splits dest: written_Enabled)
  have PWP: "?PW \<Longrightarrow> ?P"
    by (auto split: if_splits dest: written_Enabled)
  have st: "snd (Trace since l ctx bgn (counted f) err (0, s)) =
      (if ?W then snd (counted f (0, s))
       else if ?P then snd (counted f (after_error l ctx (counted f) err (0, s)))
       else after_error l ctx (counted f) err (0, s))"
    by (rule Trace_state)
  have n: "?n = (if ?E then 1 else 0) + (if ?W then 0 else if ?P then 1 else 0)"
    unfolding st using WE
    by (cases err) (auto simp add: counted_apply after_error_counted)
  have len: "length (fst (Trace since l ctx bgn (counted f) err (0, s)))
      = (if ?W then 1 else if ?PW then 1 else 0)"
    by (rule Trace_length)
  have a: "?n = (case err of
          None \<Rightarrow> 0
        | Some e \<Rightarrow>
            if Event_Enabled (hooked (Config l) ctx (errLevel (Config l) e (Logger l)))
            then 1 else 0)
       + (if ?W then 0 else if ?P then 1 else 0)"
    unfolding n by (cases err) simp_all
  have b: "?n \<le> 2"
    unfolding n by simp
  have c: "length (fst (Trace since l ctx bgn (counted f) err (0, s))) \<le> ?n"
    unfolding n len using WE PWP by auto
  have c1: "length (fst (Trace since l ctx bgn (counted f) err (0, s))) \<le> 1"
    unfolding len by simp
  have d: "\<exists>e. err = Some e \<and>
           Event_Enabled (hooked (Config l) ctx (errLevel (Config l) e (Logger l))) \<and>
           \<not> written (Config l) ctx ''a sql error occurred''
               (errLevel (Config l) e (Logger l))"
    if "?n = 2"
    using that unfolding n by (cases err) (auto split: if_splits)
  have e: "Trace since l ctx bgn f err s = ([], s)"
    if h: "(case err of
       None \<Rightarrow> True
     | Some e \<Rightarrow> \<not> Event_Enabled (errLevel (Config l) e (Logger l))) \<and>
    \<not> Event_Enabled (slowLevel (Config l) (Logger l)) \<and>
    \<not> Event_Enabled (dumpLevel (Config l) (Logger l))"
  proof -
    from h have hs: "\<not> Event_Enabled (hooked (Config l) ctx (slowLevel (Config l) (Logger l)))"
      and hd: "\<not> Event_Enabled (hooked (Config l) ctx (dumpLevel (Config l) (Logger l)))"
      by (simp_all add: hooked_disabled)
    then have nP: "\<not> ?P"
      by simp
    have nE: "\<not> ?E"
      using h by (cases err) (simp_all add: hooked_disabled)
    then have nW: "\<not> ?W"
      using WE by blast
    have ae: "after_error l ctx f err s = s"
      using nE by (cases err) (simp_all add: after_error_def)
    have st: "snd (Trace since l ctx bgn f err s) = s"
      using nW nP by (simp add: Trace_state ae)
    have "\<not> ?PW"
      using nP PWP by blast
    with nW have "length (fst (Trace since l ctx bgn f err s)) = 0"
      by (simp add: Trace_length)
    with st show ?thesis
      by (cases "Trace since l ctx bgn f err s") simp
  qed
  from a b c c1 d e show ?thesis by blast
qed

theorem supplier_reads_witness:
  "Trace (fixed_clock 5) (example_logger zerolog_ErrorLevel Config_zero) () ()
      (counted (fixed_supplier ''SELECT 1'' 1)) None (0, ()) = ([], (0, ())) \<and>
   fst (snd (Trace (fixed_clock 5)
               (hook_logger [discard_level zerolog_ErrorLevel] zerolog_DebugLevel Config_zero)
               () () (counted (fixed_supplier ''SELECT 1'' 1))
               (Some (errors_New ''boom'')) (0, ()))) = 2 \<and>
   Event_Enabled
     (hooked (Config (hook_logger [discard_level zerolog_ErrorLevel] zerolog_DebugLevel Config_zero)) ()
        (errLevel (Config (hook_logger [discard_level zerolog_ErrorLevel] zerolog_DebugLevel Config_zero))
           (errors_New ''boom'')
           (Logger (hook_logger [discard_level zerolog_ErrorLevel] zerolog_DebugLevel Config_zero)))) \<and>
   \<not> written (Config (hook_logger [discard_level zerolog_ErrorLevel] zerolog_DebugLevel Config_zero)) ()
       ''a sql error occurred''
       (errLevel (Config (hook_logger [discard_level zerolog_ErrorLevel] zerolog_DebugLevel Config_zero))
          (errors_New ''boom'')
          (Logger (hook_logger [discard_level zerolog_ErrorLevel] zerolog_DebugLevel Config_zero)))"
proof -
  let ?L = "example_logger zerolog_ErrorLevel Config_zero"
  let ?H = "hook_logger [discard_level zerolog_ErrorLevel] zerolog_DebugLevel Config_zero"
  have h: "(case None :: error option of
       None \<Rightarrow> True
     | Some e \<Rightarrow> \<not> Event_Enabled (errLevel (Config ?L) e (Logger ?L))) \<and>
    \<not> Event_Enabled (slowLevel (Config ?L) (Logger ?L)) \<and>
    \<not> Event_Enabled (dumpLevel (Config ?L) (Logger ?L))"
    by code_simp
  have two: "fst (snd (Trace (fixed_clock 5) ?H () () (counted (fixed_supplier ''SELECT 1'' 1))
               (Some (errors_New ''boom'')) (0, ()))) = 2"
    by code_simp
  note A = supplier_reads [where since = "fixed_clock 5" and l = ?L and ctx = "()"
      and bgn = "()" and f = "counted (fixed_supplier ''SELECT 1'' 1)" and err = None
      and s = "(0, ())"]
  note B = supplier_reads [where since = "fixed_clock 5" and l = ?H and ctx = "()"
      and bgn = "()" and f = "fixed_supplier ''SELECT 1'' 1" and err = "Some (errors_New ''boom'')"
      and s = "()"]
  from A [THEN conjunct2, THEN conjunct2, THEN conjunct2, THEN conjunct2, THEN conjunct2] h
  have a: "Trace (fixed_clock 5) ?L () () (counted (fixed_supplier ''SELECT 1'' 1)) None (0, ())
     = ([], (0, ()))"
    by blast
  from B [THEN conjunct2, THEN conjunct2, THEN conjunct2, THEN conjunct2, THEN conjunct1] two
  have b: "Event_Enabled (hooked (Config ?H) () (errLevel (Config ?H) (errors_New ''boom'') (Logger ?H))) \<and>
    \<not> written (Config ?H) () ''a sql error occurred''
        (errLevel (Config ?H) (errors_New ''boom'') (Logger ?H))"
    by simp
  show ?thesis
    by (rule conjI [OF a conjI [OF two b]])
qed

text \<open>
  A hook of the logger that discards the events of error level: the error formatter has
  read the supplier when \<^verbatim>\<open>Msg\<close> runs the hook, the error event is not written, the call
  falls through to the dump path and the dump formatter reads the supplier again.
\<close>

theorem supplier_read_twice_counterexample:
  "fst (snd (Trace (fixed_clock 5)
               (hook_logger [discard_level zerolog_ErrorLevel] zerolog_DebugLevel Config_zero)
               () () (counted (fixed_supplier ''SELECT 1'' 1))
               (Some (errors_New ''boom'')) (0, ()))) = 2"
  by code_simp

text \<open>
  Claim C6. Let the supplier return the SQL text \<open>sql\<close> and the row count \<open>rows\<close>. Each
  of the three formatters appends to the event its own fields, ending with the SQL text,
  and then the affected-rows field with the value \<open>rows\<close> under the row key, unless
  \<open>rows\<close> is -1, when it appends nothing more. Every message that \<open>Trace\<close> writes
  has the fields of the event of its path (as the selector and the customization hook
  left it), then those of the path's formatter, built in this way from what the supplier
  returned to it, then what the hooks of the logger attached. The error formatter reads
  the supplier in the state of the call, the slow and the dump formatter in the state in
  which the error path left it.
\<close>

theorem affected_rows_field:
  assumes fs: "f s = ((sql, rows), s')"
  shows
  "ev_fields (fst (logErr c e f ev s))
     = ev_fields ev @ [(''error'', ErrField e), (sqlKey c, StrField sql)]
         @ (if rows = - 1 then [] else [(rowKey c, Int64Field rows)]) \<and>
   ev_fields (fst (logSlow c dur f ev s))
     = ev_fields ev @ [(durKey c, DurField dur), (sqlKey c, StrField sql)]
         @ (if rows = - 1 then [] else [(rowKey c, Int64Field rows)]) \<and>
   ev_fields (fst (logDump c dur f ev s))
     = ev_fields ev @ (if DumpWithDuration c then [(durKey c, DurField dur)] else [])
         @ [(sqlKey c, StrField sql)]
         @ (if rows = - 1 then [] else [(rowKey c, Int64Field rows)]) \<and>
   (\<forall>en \<in> set (fst (Trace since l ctx bgn f err s)).
      \<exists>ev.
        (\<exists>e. err = Some e \<and>
             hooked (Config l) ctx (errLevel (Config l) e (Logger l)) = Some ev \<and>
             en_fields en = ev_fields ev
               @ [(''error'', ErrField e), (sqlKey (Config l), StrField sql)]
               @ (if rows = - 1 then [] else [(rowKey (Config l), Int64Field rows)])
               @ hooks_fields (ev_ch ev) ''a sql error occurred'' (ev_level ev)) \<or>
        (hooked (Config l) ctx (slowLevel (Config l) (Logger l)) = Some ev \<and>
         en_fields en = ev_fields ev
           @ [(durKey (Config l), DurField (since bgn)),
              (sqlKey (Config l), StrField (fst (fst (f (after_error l ctx f err s)))))]
           @ (if snd (fst (f (after_error l ctx f err s))) = - 1 then []
              else [(rowKey (Config l), Int64Field (snd (fst (f (after_error l ctx f err s)))))])
           @ hooks_fields (ev_ch ev) ''sql query time exceeds threshold'' (ev_level ev)) \<or>
        (hooked (Config l) ctx (dumpLevel (Config l) (Logger l)) = Some ev \<and>
         en_fields en = ev_fields ev
           @ (if DumpWithDuration (Config l)
              then [(durKey (Config l), DurField (since bgn))] else [])
           @ [(sqlKey (Config l), StrField (fst (fst (f (after_error l ctx f err s)))))]
           @ (if snd (fst (f (after_error l ctx f err s))) = - 1 then []
              else [(rowKey (Config l), Int64Field (snd (fst (f (after_error l ctx f err s)))))])
           @ hooks_fields (ev_ch ev) ''dump sql'' (ev_level ev)))"
proof -
  have e1: "ev_fields (fst (logErr c e f ev s))
     = ev_fields ev @ [(''error'', ErrField e), (sqlKey c, StrField sql)]
         @ (if rows = - 1 then [] else [(rowKey c, Int64Field rows)])"
    by (simp add: logErr_eq [where f = f and s = s, OF fs])
  have e2: "ev_fields (fst (logSlow c dur f ev s))
     = ev_fields ev @ [(durKey c, DurField dur), (sqlKey c, StrField sql)]
         @ (if rows = - 1 then [] else [(rowKey c, Int64Field rows)])"
    by (simp add: logSlow_eq [where f = f and s = s, OF fs])
  have e3: "ev_fields (fst (logDump c dur f ev s))
     = ev_fields ev @ (if DumpWithDuration c then [(durKey c, DurField dur)] else [])
         @ [(sqlKey c, StrField sql)]
         @ (if rows = - 1 then [] else [(rowKey c, Int64Field rows)])"
    by (simp add: logDump_eq [where f = f and s = s, OF fs])
  let ?P = "\<lambda>err' s1 en. \<exists>ev.
        (\<exists>e. err' = Some e \<and>
             hooked (Config l) ctx (errLevel (Config l) e (Logger l)) = Some ev \<and>
             en_fields en = ev_fields ev
               @ [(''error'', ErrField e), (sqlKey (Config l), StrField sql)]
               @ (if rows = - 1 then [] else [(rowKey (Config l), Int64Field rows)])
               @ hooks_fields (ev_ch ev) ''a sql error occurred'' (ev_level ev)) \<or>
        (hooked (Config l) ctx (slowLevel (Config l) (Logger l)) = Some ev \<and>
         en_fields en = ev_fields ev
           @ [(durKey (Config l), DurField (since bgn)),
              (sqlKey (Config l), StrField (fst (fst (f s1))))]
           @ (if snd (fst (f s1)) = - 1 then []
              else [(rowKey (Config l), Int64Field (snd (fst (f s1))))])
           @ hooks_fields (ev_ch ev) ''sql query time exceeds threshold'' (ev_level ev)) \<or>
        (hooked (Config l) ctx (dumpLevel (Config l) (Logger l)) = Some ev \<and>
         en_fields en = ev_fields ev
           @ (if DumpWithDuration (Config l)
              then [(durKey (Config l), DurField (since bgn))] else [])
           @ [(sqlKey (Config l), StrField (fst (fst (f s1))))]
           @ (if snd (fst (f s1)) = - 1 then []
              else [(rowKey (Config l), Int64Field (snd (fst (f s1))))])
           @ hooks_fields (ev_ch ev) ''dump sql'' (ev_level ev))"
  have none: "?P err' s1 en" if "en \<in> set (fst (Trace since l ctx bgn f None s1))" for en err' s1
  proof (cases "0 <s SlowThreshold (Config l) \<and> SlowThreshold (Config l) \<le>s since bgn")
    case True
    then have c: "(0 <s SlowThreshold (Config l) \<and> SlowThreshold (Config l) \<le>s since bgn) = True"
      by simp
    from that obtain ev where ev: "hooked (Config l) ctx (slowLevel (Config l) (Logger l)) = Some ev"
      and en: "en_fields en = ev_fields ev
           @ [(durKey (Config l), DurField (since bgn)),
              (sqlKey (Config l), StrField (fst (fst (f s1))))]
           @ (if snd (fst (f s1)) = - 1 then []
              else [(rowKey (Config l), Int64Field (snd (fst (f s1))))])
           @ hooks_fields (ev_ch ev) ''sql query time exceeds threshold'' (ev_level ev)"
      unfolding Trace_None_eq [of since l ctx bgn f s1] c
      by (auto split: option.splits if_splits)
    show ?thesis
      by (rule exI [of _ ev], rule disjI2, rule disjI1) (rule conjI [OF ev en])
  next
    case False
    then have c: "(0 <s SlowThreshold (Config l) \<and> SlowThreshold (Config l) \<le>s since bgn) = False"
      by simp
    from that obtain ev where ev: "hooked (Config l) ctx (dumpLevel (Config l) (Logger l)) = Some ev"
      and en: "en_fields en = ev_fields ev
           @ (if DumpWithDuration (Config l)
              then [(durKey (Config l), DurField (since bgn))] else [])
           @ [(sqlKey (Config l), StrField (fst (fst (f s1))))]
           @ (if snd (fst (f s1)) = - 1 then []
              else [(rowKey (Config l), Int64Field (snd (fst (f s1))))])
           @ hooks_fields (ev_ch ev) ''dump sql'' (ev_level ev)"
      unfolding Trace_None_eq [of since l ctx bgn f s1] c
      by (auto split: option.splits if_splits)
    show ?thesis
      by (rule exI [of _ ev], rule disjI2, rule disjI2) (rule conjI [OF ev en])
  qed
  have all: "?P err (after_error l ctx f err s) en"
    if mem: "en \<in> set (fst (Trace since l ctx bgn f err s))" for en
  proof (cases err)
    case None
    with mem have "en \<in> set (fst (Trace since l ctx bgn f None (after_error l ctx f err s)))"
      by (simp add: after_error_def)
    then show ?thesis by (rule none)
  next
    case (Some e)
    show ?thesis
    proof (cases "written (Config l) ctx ''a sql error occurred'' (errLevel (Config l) e (Logger l))")
      case True
      from Trace_err_written [OF True, of since bgn f s] mem Some fs
      obtain ev where ev: "hooked (Config l) ctx (errLevel (Config l) e (Logger l)) = Some ev"
        and en: "en_fields en = ev_fields ev
               @ [(''error'', ErrField e), (sqlKey (Config l), StrField sql)]
               @ (if rows = - 1 then [] else [(rowKey (Config l), Int64Field rows)])
               @ hooks_fields (ev_ch ev) ''a sql error occurred'' (ev_level ev)"
        by auto
      have "\<exists>e'. err = Some e' \<and>
             hooked (Config l) ctx (errLevel (Config l) e' (Logger l)) = Some ev \<and>
             en_fields en = ev_fields ev
               @ [(''error'', ErrField e'), (sqlKey (Config l), StrField sql)]
               @ (if rows = - 1 then [] else [(rowKey (Config l), Int64Field rows)])
               @ hooks_fields (ev_ch ev) ''a sql error occurred'' (ev_level ev)"
        by (rule exI [of _ e]) (simp add: Some ev en)
      then show ?thesis
        by (intro exI [of _ ev] disjI1)
    next
      case False
      from Trace_err_not_written [OF False, of since bgn f s] mem Some
      have "en \<in> set (fst (Trace since l ctx bgn f None (after_error l ctx f err s)))"
        by simp
      then show ?thesis by (rule none)
    qed
  qed
  from e1 e2 e3 all show ?thesis by blast
qed

theorem affected_rows_field_witness:
  "fixed_supplier ''SELECT 1'' (- 1) () = ((''SELECT 1'', - 1), ()) \<and>
   ev_fields (fst (logErr Config_zero (errors_New ''boom'') (fixed_supplier ''SELECT 1'' (- 1))
                     \<lparr>ev_level = zerolog_ErrorLevel, ev_fields = [], ev_ch = []\<rparr> ()))
     = [(''error'', ErrField (errors_New ''boom'')), (''sql'', StrField ''SELECT 1'')] \<and>
   fixed_supplier ''SELECT 1'' 0 () = ((''SELECT 1'', 0), ()) \<and>
   ev_fields (fst (logDump Config_zero 5 (fixed_supplier ''SELECT 1'' 0)
                     \<lparr>ev_level = zerolog_DebugLevel, ev_fields = [], ev_ch = []\<rparr> ()))
     = [(''sql'', StrField ''SELECT 1''), (''affected_rows'', Int64Field 0)] \<and>
   (\<exists>en pre.
      fst (Trace (fixed_clock 5) (example_logger zerolog_DebugLevel Config_zero) () ()
             (fixed_supplier ''SELECT 1'' 0) None ()) = [en] \<and>
      en_fields en = pre @ [(''affected_rows'', Int64Field 0)])"
proof -
  let ?L = "example_logger zerolog_DebugLevel Config_zero"
  let ?f = "fixed_supplier ''SELECT 1'' 0"
  have a: "fixed_supplier ''SELECT 1'' (- 1) () = ((''SELECT 1'', - 1), ())"
    by (simp add: fixed_supplier_def)
  have b: "fixed_supplier ''SELECT 1'' 0 () = ((''SELECT 1'', 0), ())"
    by (simp add: fixed_supplier_def)
  have keys: "sqlKey Config_zero = ''sql''" "rowKey Config_zero = ''affected_rows''"
    "rowKey (Config ?L) = ''affected_rows''" "DumpWithDuration Config_zero = False"
    by code_simp+
  have hs: "hooked (Config ?L) () (slowLevel (Config ?L) (Logger ?L))
      = Some \<lparr>ev_level = zerolog_WarnLevel, ev_fields = [], ev_ch = []\<rparr>"
    by (simp add: example_defs)
  have hd: "hooked (Config ?L) () (dumpLevel (Config ?L) (Logger ?L))
      = Some \<lparr>ev_level = zerolog_DebugLevel, ev_fields = [], ev_ch = []\<rparr>"
    by (simp add: example_defs)
  have len: "length (fst (Trace (fixed_clock 5) ?L () () ?f None ())) = 1"
    by code_simp
  then obtain en0 where one: "fst (Trace (fixed_clock 5) ?L () () ?f None ()) = [en0]"
    by (auto simp add: length_Suc_conv)
  note A = affected_rows_field [where f = "fixed_supplier ''SELECT 1'' (- 1)" and s = "()"
      and c = Config_zero and e = "errors_New ''boom''"
      and ev = "\<lparr>ev_level = zerolog_ErrorLevel, ev_fields = [], ev_ch = []\<rparr>" and dur = 5
      and since = "fixed_clock 5" and l = ?L and ctx = "()" and bgn = "()" and err = None, OF a]
  note B = affected_rows_field [where f = ?f and s = "()"
      and c = Config_zero and dur = 5 and e = "errors_New ''boom''"
      and ev = "\<lparr>ev_level = zerolog_DebugLevel, ev_fields = [], ev_ch = []\<rparr>"
      and since = "fixed_clock 5" and l = ?L and ctx = "()" and bgn = "()" and err = None, OF b]
  from A [THEN conjunct1] have x: "ev_fields (fst (logErr Config_zero (errors_New ''boom'') (fixed_supplier ''SELECT 1'' (- 1))
                     \<lparr>ev_level = zerolog_ErrorLevel, ev_fields = [], ev_ch = []\<rparr> ()))
     = [(''error'', ErrField (errors_New ''boom'')), (''sql'', StrField ''SELECT 1'')]"
    by (simp add: keys)
  from B [THEN conjunct2, THEN conjunct2, THEN conjunct1] have y: "ev_fields (fst (logDump Config_zero 5 ?f
                     \<lparr>ev_level = zerolog_DebugLevel, ev_fields = [], ev_ch = []\<rparr> ()))
     = [(''sql'', StrField ''SELECT 1''), (''affected_rows'', Int64Field 0)]"
    by (simp add: keys)
  note B4 = B [THEN conjunct2, THEN conjunct2, THEN conjunct2]
  have mem: "en0 \<in> set (fst (Trace (fixed_clock 5) ?L () () ?f None ()))"
    by (simp add: one)
  from bspec [OF B4 mem] obtain ev :: Event where
    "(hooked (Config ?L) () (slowLevel (Config ?L) (Logger ?L)) = Some ev \<and>
      en_fields en0 = ev_fields ev
           @ [(durKey (Config ?L), DurField (fixed_clock 5 ())),
              (sqlKey (Config ?L), StrField (fst (fst (?f (after_error ?L () ?f None ())))))]
           @ (if snd (fst (?f (after_error ?L () ?f None ()))) = - 1 then []
              else [(rowKey (Config ?L), Int64Field (snd (fst (?f (after_error ?L () ?f None ())))))])
           @ hooks_fields (ev_ch ev) ''sql query time exceeds threshold'' (ev_level ev)) \<or>
     (hooked (Config ?L) () (dumpLevel (Config ?L) (Logger ?L)) = Some ev \<and>
      en_fields en0 = ev_fields ev
           @ (if DumpWithDuration (Config ?L)
              then [(durKey (Config ?L), DurField (fixed_clock 5 ()))] else [])
           @ [(sqlKey (Config ?L), StrField (fst (fst (?f (after_error ?L () ?f None ())))))]
           @ (if snd (fst (?f (after_error ?L () ?f None ()))) = - 1 then []
              else [(rowKey (Config ?L), Int64Field (snd (fst (?f (after_error ?L () ?f None ())))))])
           @ hooks_fields (ev_ch ev) ''dump sql'' (ev_level ev))"
    by blast
  then have "\<exists>pre. en_fields en0 = pre @ [(''affected_rows'', Int64Field 0)]"
  proof (elim disjE conjE)
    assume h: "hooked (Config ?L) () (slowLevel (Config ?L) (Logger ?L)) = Some ev"
      and f: "en_fields en0 = ev_fields ev
           @ [(durKey (Config ?L), DurField (fixed_clock 5 ())),
              (sqlKey (Config ?L), StrField (fst (fst (?f (after_error ?L () ?f None ())))))]
           @ (if snd (fst (?f (after_error ?L () ?f None ()))) = - 1 then []
              else [(rowKey (Config ?L), Int64Field (snd (fst (?f (after_error ?L () ?f None ())))))])
           @ hooks_fields (ev_ch ev) ''sql query time exceeds threshold'' (ev_level ev)"
    from h hs have "ev_ch ev = []" by auto
    with f have "en_fields en0 = (ev_fields ev
           @ [(durKey (Config ?L), DurField (fixed_clock 5 ())),
              (sqlKey (Config ?L), StrField (fst (fst (?f (after_error ?L () ?f None ())))))])
           @ [(''affected_rows'', Int64Field 0)]"
      by (simp add: b keys)
    then show ?thesis by (rule exI [of _ "ev_fields ev
           @ [(durKey (Config ?L), DurField (fixed_clock 5 ())),
              (sqlKey (Config ?L), StrField (fst (fst (?f (after_error ?L () ?f None ())))))]"])
  next
    assume h: "hooked (Config ?L) () (dumpLevel (Config ?L) (Logger ?L)) = Some ev"
      and f: "en_fields en0 = ev_fields ev
           @ (if DumpWithDuration (Config ?L)
              then [(durKey (Config ?L), DurField (fixed_clock 5 ()))] else [])
           @ [(sqlKey (Config ?L), StrField (fst (fst (?f (after_error ?L () ?f None ())))))]
           @ (if snd (fst (?f (after_error ?L () ?f None ()))) = - 1 then []
              else [(rowKey (Config ?L), Int64Field (snd (fst (?f (after_error ?L () ?f None ())))))])
           @ hooks_fields (ev_ch ev) ''dump sql'' (ev_level ev)"
    from h hd have "ev_ch ev = []" by auto
    with f have "en_fields en0 = (ev_fields ev
           @ (if DumpWithDuration (Config ?L)
              then [(durKey (Config ?L), DurField (fixed_clock 5 ()))] else [])
           @ [(sqlKey (Config ?L), StrField (fst (fst (?f (after_error ?L () ?f None ())))))])
           @ [(''affected_rows'', Int64Field 0)]"
      by (simp add: b keys)
    then show ?thesis by (rule exI [of _ "ev_fields ev
           @ (if DumpWithDuration (Config ?L)
              then [(durKey (Config ?L), DurField (fixed_clock 5 ()))] else [])
           @ [(sqlKey (Config ?L), StrField (fst (fst (?f (after_error ?L () ?f None ())))))]"])
  qed
  then obtain pre where eq: "en_fields en0 = pre @ [(''affected_rows'', Int64Field 0)]"
    by (elim exE)
  have z: "\<exists>en pre.
      fst (Trace (fixed_clock 5) ?L () () ?f None ()) = [en] \<and>
      en_fields en = pre @ [(''affected_rows'', Int64Field 0)]"
    by (rule exI [of _ en0], rule exI [of _ pre]) (rule conjI [OF one eq])
  show ?thesis
    by (rule conjI [OF a conjI [OF x conjI [OF b conjI [OF y z]]]])
qed

section \<open>Mode switching\<close>

text \<open>
  Claim C7. When \<open>LogMode\<close> is called through a pointer \<open>p\<close> to an adapter, it returns
  a pointer \<open>q\<close> that differs from \<open>p\<close> and was not allocated before. The new adapter
  has the configuration of the original and the original's logger with the threshold
  that belongs to the verbosity. Every adapter that existed keeps its value, the original
  too, so each method called through \<open>p\<close> afterwards gives what it gave before:
  \<open>LogMode\<close>, \<open>Info\<close>, \<open>Warn\<close>, \<open>Error\<close>, \<open>Trace\<close> and \<open>ParamsFilter\<close>.
\<close>

theorem LogMode_at_frame:
  assumes "LogMode_at h p lv = Some (h', q)"
  shows
  "q \<noteq> p \<and> deref h q = None \<and> deref h' p = deref h p \<and>
   (\<forall>a. deref h a \<noteq> None \<longrightarrow> deref h' a = deref h a) \<and>
   (\<exists>l. deref h p = Some l \<and>
        deref h' q = Some \<lparr>Logger = zerolog_Logger_Level (Logger l) (DefaultLogLevelMap lv),
                            Config = Config l\<rparr>) \<and>
   call_at h' p (\<lambda>l. LogMode l lv') = call_at h p (\<lambda>l. LogMode l lv') \<and>
   call_at h' p (\<lambda>l. Info sprintf l ctx msg args) = call_at h p (\<lambda>l. Info sprintf l ctx msg args) \<and>
   call_at h' p (\<lambda>l. Warn sprintf l ctx msg args) = call_at h p (\<lambda>l. Warn sprintf l ctx msg args) \<and>
   call_at h' p (\<lambda>l. Error sprintf l ctx msg args) = call_at h p (\<lambda>l. Error sprintf l ctx msg args) \<and>
   call_at h' p (\<lambda>l. Trace since l ctx bgn f err s) = call_at h p (\<lambda>l. Trace since l ctx bgn f err s) \<and>
   call_at h' p (\<lambda>l. ParamsFilter l ctx sql params) = call_at h p (\<lambda>l. ParamsFilter l ctx sql params)"
proof -
  from assms have p: "p < length h" and q: "q = length h"
    and h': "h' = h @ [LogMode (h ! p) lv]"
    by (auto simp add: LogMode_at_def deref_def split: if_splits)
  have old: "deref h' a = deref h a" if "deref h a \<noteq> None" for a
    using that by (auto simp add: deref_def h' nth_append split: if_splits)
  have same: "deref h' p = deref h p"
    using p by (simp add: deref_def h' nth_append)
  have new: "deref h' q = Some \<lparr>Logger = zerolog_Logger_Level (Logger (h ! p)) (DefaultLogLevelMap lv),
                            Config = Config (h ! p)\<rparr>"
    by (simp add: deref_def h' q LogMode_eq)
  have calls: "call_at h' p m = call_at h p m" for m :: "'a Logger \<Rightarrow> 'r"
    by (simp add: call_at_def same)
  from p q have "q \<noteq> p" "deref h q = None" "deref h p = Some (h ! p)"
    by (simp_all add: deref_def)
  with same old new show ?thesis
    by (simp add: calls)
qed

theorem LogMode_at_frame_witness:
  "LogMode_at [example_logger zerolog_WarnLevel Config_zero] 0 logger_Info
     = Some ([example_logger zerolog_WarnLevel Config_zero,
              example_logger zerolog_DebugLevel Config_zero], 1) \<and>
   deref [example_logger zerolog_WarnLevel Config_zero,
          example_logger zerolog_DebugLevel Config_zero] 0
     = deref [example_logger zerolog_WarnLevel Config_zero] 0 \<and>
   call_at [example_logger zerolog_WarnLevel Config_zero,
            example_logger zerolog_DebugLevel Config_zero] 0
       (\<lambda>l. Trace (fixed_clock 5) l () () (fixed_supplier ''SELECT 1'' 1) None ())
     = call_at [example_logger zerolog_WarnLevel Config_zero] 0
       (\<lambda>l. Trace (fixed_clock 5) l () () (fixed_supplier ''SELECT 1'' 1) None ())"
proof -
  have h: "LogMode_at [example_logger zerolog_WarnLevel Config_zero] 0 logger_Info
     = Some ([example_logger zerolog_WarnLevel Config_zero,
              example_logger zerolog_DebugLevel Config_zero], 1)"
    by (simp add: LogMode_at_def deref_def LogMode_def example_logger_def hook_logger_def
        logger_Info_def
        logger_Silent_def logger_Error_def logger_Warn_def zerolog_Logger_Level_def)
  from LogMode_at_frame [where h = "[example_logger zerolog_WarnLevel Config_zero]" and p = 0
      and lv = logger_Info and q = 1
      and h' = "[example_logger zerolog_WarnLevel Config_zero,
              example_logger zerolog_DebugLevel Config_zero]"
      and since = "fixed_clock 5" and ctx = "()" and bgn = "()"
      and f = "fixed_supplier ''SELECT 1'' 1" and err = None and s = "()", OF h] h
  show ?thesis by blast
qed

section \<open>Error classification\<close>

text \<open>
  Claim C8. \<open>CommonError\<close> holds of an error exactly when \<^verbatim>\<open>errors.Is\<close> matches it with
  the record-not-found sentinel or with the duplicated-key sentinel, that is, when one of
  the two is the error itself or is wrapped in it. For every level function and every
  predicate, the selector made by \<open>LogErrorAt\<close> returns the event of the level function
  when the predicate accepts the error, and the logger's event at error level otherwise.
  \<open>IgnoreCommonErr\<close> is \<open>LogErrorAt UseTrace CommonError\<close> and \<open>DebugCommonErr\<close> is
  \<open>LogErrorAt UseDebug CommonError\<close>.
\<close>

theorem error_classification:
  "CommonError err =
     (gorm_ErrRecordNotFound \<in> set (unwrap_chain err) \<or>
      gorm_ErrDuplicatedKey \<in> set (unwrap_chain err)) \<and>
   CommonError err =
     (errors_Is err gorm_ErrRecordNotFound \<or> errors_Is err gorm_ErrDuplicatedKey) \<and>
   (cmpErr err \<longrightarrow> LogErrorAt lvl cmpErr err l = lvl l) \<and>
   (\<not> cmpErr err \<longrightarrow> LogErrorAt lvl cmpErr err l = newEvent l zerolog_ErrorLevel) \<and>
   IgnoreCommonErr = LogErrorAt UseTrace CommonError \<and>
   DebugCommonErr = LogErrorAt UseDebug CommonError"
  by (auto simp add: CommonError_def errors_Is_chain LogErrorAt_def UseError_def
      zerolog_Logger_Error_def IgnoreCommonErr_def DebugCommonErr_def fun_eq_iff)

theorem error_classification_witness:
  "CommonError (fmt_Errorf ''load user'' gorm_ErrRecordNotFound) \<and>
   LogErrorAt UseDebug CommonError (fmt_Errorf ''load user'' gorm_ErrRecordNotFound)
       \<lparr>lg_w = True, lg_level = zerolog_DebugLevel, lg_hooks = []\<rparr>
     = Some \<lparr>ev_level = zerolog_DebugLevel, ev_fields = [], ev_ch = []\<rparr> \<and>
   \<not> CommonError (errors_New ''record not found'') \<and>
   LogErrorAt UseDebug CommonError (errors_New ''record not found'')
       \<lparr>lg_w = True, lg_level = zerolog_DebugLevel, lg_hooks = []\<rparr>
     = Some \<lparr>ev_level = zerolog_ErrorLevel, ev_fields = [], ev_ch = []\<rparr>"
proof -
  have a: "CommonError (fmt_Errorf ''load user'' gorm_ErrRecordNotFound)"
    by (simp add: CommonError_def)
  have b: "\<not> CommonError (errors_New ''record not found'')"
    by (simp add: CommonError_def)
  have c: "UseDebug \<lparr>lg_w = True, lg_level = zerolog_DebugLevel, lg_hooks = []\<rparr>
     = Some \<lparr>ev_level = zerolog_DebugLevel, ev_fields = [], ev_ch = []\<rparr>"
    by (simp add: UseDebug_def zerolog_Logger_Debug_def newEvent_def should_def)
  have d: "newEvent \<lparr>lg_w = True, lg_level = zerolog_DebugLevel, lg_hooks = []\<rparr> zerolog_ErrorLevel
     = Some \<lparr>ev_level = zerolog_ErrorLevel, ev_fields = [], ev_ch = []\<rparr>"
    by (simp add: newEvent_def should_def)
  from a error_classification [of "fmt_Errorf ''load user'' gorm_ErrRecordNotFound" CommonError
       UseDebug "\<lparr>lg_w = True, lg_level = zerolog_DebugLevel, lg_hooks = []\<rparr>"]
  have x: "LogErrorAt UseDebug CommonError (fmt_Errorf ''load user'' gorm_ErrRecordNotFound)
       \<lparr>lg_w = True, lg_level = zerolog_DebugLevel, lg_hooks = []\<rparr>
     = UseDebug \<lparr>lg_w = True, lg_level = zerolog_DebugLevel, lg_hooks = []\<rparr>"
    by blast
  from b error_classification [of "errors_New ''record not found''" CommonError
       UseDebug "\<lparr>lg_w = True, lg_level = zerolog_DebugLevel, lg_hooks = []\<rparr>"]
  have y: "LogErrorAt UseDebug CommonError (errors_New ''record not found'')
       \<lparr>lg_w = True, lg_level = zerolog_DebugLevel, lg_hooks = []\<rparr>
     = newEvent \<lparr>lg_w = True, lg_level = zerolog_DebugLevel, lg_hooks = []\<rparr> zerolog_ErrorLevel"
    by blast
  from a b x y c d show ?thesis by simp
qed

section \<open>Parameter redaction\<close>

text \<open>
  Claim C9. With \<open>ParameterizedQueries\<close> set, \<open>ParamsFilter\<close> returns the SQL text as it
  is and a nil parameter list; with the flag unset it returns the SQL text and the
  parameter list as they are.
\<close>

theorem ParamsFilter_redacts:
  "(ParameterizedQueries (Config l) \<longrightarrow> ParamsFilter l ctx sql params = (sql, None)) \<and>
   (\<not> ParameterizedQueries (Config l) \<longrightarrow> ParamsFilter l ctx sql params = (sql, params))"
  by (simp add: ParamsFilter_def)

theorem ParamsFilter_redacts_witness:
  "ParamsFilter \<lparr>Logger = \<lparr>lg_w = True, lg_level = zerolog_DebugLevel, lg_hooks = []\<rparr>,
                  Config = Config_zero\<lparr>ParameterizedQueries := True\<rparr>\<rparr>
      () ''SELECT * FROM users WHERE id = ?'' (Some [7::int])
     = (''SELECT * FROM users WHERE id = ?'', None) \<and>
   ParamsFilter \<lparr>Logger = \<lparr>lg_w = True, lg_level = zerolog_DebugLevel, lg_hooks = []\<rparr>, Config = Config_zero\<rparr>
      () ''SELECT * FROM users WHERE id = ?'' (Some [7::int])
     = (''SELECT * FROM users WHERE id = ?'', Some [7])"
proof -
  have on: "ParameterizedQueries (Config \<lparr>Logger = \<lparr>lg_w = True, lg_level = zerolog_DebugLevel, lg_hooks = []\<rparr>,
                  Config = Config_zero\<lparr>ParameterizedQueries := True\<rparr>\<rparr>)"
    by simp
  have off: "\<not> ParameterizedQueries (Config \<lparr>Logger = \<lparr>lg_w = True, lg_level = zerolog_DebugLevel, lg_hooks = []\<rparr>,
                  Config = Config_zero\<rparr>)"
    by (simp add: Config_zero_def)
  from on off
    ParamsFilter_redacts [of "\<lparr>Logger = \<lparr>lg_w = True, lg_level = zerolog_DebugLevel, lg_hooks = []\<rparr>,
                  Config = Config_zero\<lparr>ParameterizedQueries := True\<rparr>\<rparr>" "()"
                  "''SELECT * FROM users WHERE id = ?''" "Some [7::int]"]
    ParamsFilter_redacts [of "\<lparr>Logger = \<lparr>lg_w = True, lg_level = zerolog_DebugLevel, lg_hooks = []\<rparr>,
                  Config = Config_zero\<rparr>" "()"
                  "''SELECT * FROM users WHERE id = ?''" "Some [7::int]"]
  show ?thesis by blast
qed

section \<open>The threshold that LogMode installs\<close>

text \<open>
  Claim C10. The threshold of the adapter that \<open>LogMode\<close> builds is
  \<open>DefaultLogLevelMap\<close> of the verbosity, whatever the verbosity. It is never trace, and for
  \<open>Info\<close> it is not what \<open>WithTimeTracking\<close> gives. So no trace-level event is enabled
  after a mode switch, while a logger with a writer and the threshold
  \<open>WithTimeTracking logger_Info\<close> had them enabled.
\<close>

theorem LogMode_installs_default_map:
  "lg_level (Logger (LogMode l lv)) = DefaultLogLevelMap lv \<and>
   lg_level (Logger (LogMode l lv)) \<noteq> zerolog_TraceLevel \<and>
   lg_level (Logger (LogMode l logger_Info)) \<noteq> WithTimeTracking logger_Info \<and>
   UseTrace (Logger (LogMode l lv)) = None \<and>
   (lg_w (Logger l) \<and> lg_level (Logger l) = WithTimeTracking logger_Info \<longrightarrow>
      UseTrace (Logger l)
        = Some \<lparr>ev_level = zerolog_TraceLevel, ev_fields = [], ev_ch = lg_hooks (Logger l)\<rparr>)"
  by (simp add: LogMode_eq zerolog_Logger_Level_def DefaultLogLevelMap_def WithTimeTracking_def
      UseTrace_def zerolog_Logger_Trace_def newEvent_def should_def
      logger_Silent_def logger_Error_def logger_Warn_def logger_Info_def)

theorem LogMode_installs_default_map_witness:
  "UseTrace \<lparr>lg_w = True, lg_level = zerolog_TraceLevel, lg_hooks = []\<rparr>
     = Some \<lparr>ev_level = zerolog_TraceLevel, ev_fields = [], ev_ch = []\<rparr> \<and>
   UseTrace (Logger (LogMode \<lparr>Logger = \<lparr>lg_w = True, lg_level = zerolog_TraceLevel, lg_hooks = []\<rparr>,
                              Config = Config_zero\<rparr> logger_Info)) = None"
proof -
  have h: "lg_w (Logger \<lparr>Logger = \<lparr>lg_w = True, lg_level = zerolog_TraceLevel, lg_hooks = []\<rparr>, Config = Config_zero\<rparr>) \<and>
     lg_level (Logger \<lparr>Logger = \<lparr>lg_w = True, lg_level = zerolog_TraceLevel, lg_hooks = []\<rparr>, Config = Config_zero\<rparr>)
       = WithTimeTracking logger_Info"
    by (simp add: WithTimeTracking_def logger_Silent_def logger_Error_def logger_Warn_def
        logger_Info_def)
  from h LogMode_installs_default_map
    [of "\<lparr>Logger = \<lparr>lg_w = True, lg_level = zerolog_TraceLevel, lg_hooks = []\<rparr>, Config = Config_zero\<rparr>" logger_Info]
  show ?thesis by simp
qed

end
